theory Spec2Isabelle
  imports Main "HOL-Library.Word"
begin

text \<open>
  A shallow embedding of the WhatsApp chatbot's session and command engine: the in-memory
  session store and the conversational flow of the webhook (src/index.js), the completion
  client (src/openai-client.js), and the parser, safety filter, poll handlers and router
  of the command module (src/commands\_Version3.js). Mutable module state is passed
  explicitly; exceptions are values; what comes from outside the process (the clock, the
  random draw, the outcome of an HTTP request) is a parameter. The periodic sweep of
  stale sessions and the interleaving of concurrent webhook calls are not modelled.
\<close>

section \<open>Texts\<close>

text \<open>
  A JavaScript string is a sequence of 16-bit code units (UTF-16); it is modelled as the
  list of them. The texts the source writes as literals are ASCII, but for a check mark
  (U+2705) and an em dash (U+2014), each one code unit; \<open>ascii\<close> gives the code units of
  an ASCII literal.
\<close>

type_synonym jsstring = "16 word list"

definition ascii :: "string \<Rightarrow> jsstring" where
  "ascii s = map (\<lambda>c. word_of_int (of_char c)) s"

text \<open>
  White space as \<open>String.prototype.trim\<close>, the class \<open>\s\<close> of a pattern and \<open>parseInt\<close>
  read it: the white space and line terminator code points of ECMAScript, which are
  U+0009 to U+000D, U+0020, U+00A0, U+1680, U+2000 to U+200A, U+2028, U+2029, U+202F,
  U+205F, U+3000 and U+FEFF. Each is one code unit. A decimal digit, as \<open>\D\<close> and
  \<open>parseInt\<close> read it, is one of the ten ASCII digits.
\<close>

definition isSpace :: "16 word \<Rightarrow> bool" where
  "isSpace c =
     ((0x0009 \<le> c \<and> c \<le> 0x000D) \<or> c = 0x0020 \<or> c = 0x00A0 \<or> c = 0x1680
      \<or> (0x2000 \<le> c \<and> c \<le> 0x200A) \<or> c = 0x2028 \<or> c = 0x2029 \<or> c = 0x202F
      \<or> c = 0x205F \<or> c = 0x3000 \<or> c = 0xFEFF)"

definition isDigit :: "16 word \<Rightarrow> bool" where
  "isDigit c = (0x30 \<le> c \<and> c \<le> 0x39)"

text \<open>
  \<open>String.prototype.toLowerCase\<close> follows the case mappings of the Unicode tables of the
  runtime, which are not part of the program. The functions that call it take it as
  their first argument, written \<open>toLowerCase\<close>, and every statement about them holds
  whatever that mapping is.
\<close>

type_synonym lower_casing = "jsstring \<Rightarrow> jsstring"

text \<open>\<open>String.prototype.trim\<close>.\<close>

definition trim :: "jsstring \<Rightarrow> jsstring" where
  "trim s = rev (dropWhile isSpace (rev (dropWhile isSpace s)))"

text \<open>\<open>s.startsWith(p)\<close> and \<open>s.includes(p)\<close>.\<close>

definition startsWith :: "jsstring \<Rightarrow> jsstring \<Rightarrow> bool" where
  "startsWith s p = (take (length p) s = p)"

fun includes_str :: "jsstring \<Rightarrow> jsstring \<Rightarrow> bool" where
  "includes_str [] p = (p = [])"
| "includes_str (c # s) p = (if startsWith (c # s) p then True else includes_str s p)"

text \<open>
  \<open>s.split(/\s+/)\<close>: the pieces between the maximal runs of white space. The result is
  never empty; a text that starts (ends) with white space gives an empty first (last)
  piece, as in JavaScript.
\<close>

function split_ws :: "jsstring \<Rightarrow> jsstring list" where
  "split_ws s =
     (let tok = takeWhile (\<lambda>c. \<not> isSpace c) s;
          rest = dropWhile (\<lambda>c. \<not> isSpace c) s
      in if rest = [] then [tok] else tok # split_ws (dropWhile isSpace rest))"
  by pat_completeness auto
termination
proof (relation "measure length", goal_cases)
  case 1
  show ?case by simp
next
  case (2 s tok rest)
  then have ne: "dropWhile (\<lambda>c. \<not> isSpace c) s \<noteq> []" and r: "rest = dropWhile (\<lambda>c. \<not> isSpace c) s"
    by simp_all
  from hd_dropWhile[OF ne] have sp: "isSpace (hd rest)"
    using r by simp
  have ne': "rest \<noteq> []"
    using ne r by simp
  have "dropWhile isSpace (hd rest # tl rest) = dropWhile isSpace (tl rest)"
    using sp by simp
  then have e: "dropWhile isSpace rest = dropWhile isSpace (tl rest)"
    using ne' by simp
  have "length (dropWhile isSpace rest) \<le> length (tl rest)"
    unfolding e by (rule length_dropWhile_le)
  moreover have "length rest \<le> length s"
    unfolding r by (rule length_dropWhile_le)
  moreover have "length (tl rest) < length rest"
    using ne' by (cases rest) simp_all
  ultimately show ?case
    by simp
qed

declare split_ws.simps [simp del]

text \<open>\<open>xs.join(sep)\<close>.\<close>

fun join :: "jsstring \<Rightarrow> jsstring list \<Rightarrow> jsstring" where
  "join sep [] = []"
| "join sep [x] = x"
| "join sep (x # y # zs) = x @ sep @ join sep (y # zs)"

text \<open>\<open>x.replace(/\D/g, '')\<close>: the decimal digits of a text, in order.\<close>

definition digitsOnly :: "jsstring \<Rightarrow> jsstring" where
  "digitsOnly s = filter isDigit s"

text \<open>
  Numbers in template literals and \<open>n.toString(36)\<close>, for the natural numbers the code
  formats (list positions, vote counts, the clock and the random draw).
\<close>

definition digitChar :: "nat \<Rightarrow> 16 word" where
  "digitChar d = of_nat (if d < 10 then 48 + d else 87 + d)"

fun toStringRadix :: "nat \<Rightarrow> nat \<Rightarrow> jsstring" where
  "toStringRadix b n =
     (if b < 2 \<or> n < b then [digitChar n] else toStringRadix b (n div b) @ [digitChar (n mod b)])"

declare toStringRadix.simps [simp del]

text \<open>
  \<open>parseInt(s, 10)\<close>: leading white space, an optional sign (the code units of \<open>-\<close> and
  \<open>+\<close>), then the longest run of decimal digits; \<open>None\<close> is \<open>NaN\<close>. The source's result is a double; the code only tests
  it against the option positions of a poll, where a double and the exact integer agree.
\<close>

definition decimalValue :: "jsstring \<Rightarrow> nat" where
  "decimalValue ds = foldl (\<lambda>acc c. 10 * acc + (unat c - 48)) 0 ds"

definition parseInt10 :: "jsstring \<Rightarrow> int option" where
  "parseInt10 s =
     (let s1 = dropWhile isSpace s;
          neg = (take 1 s1 = ascii ''-'');
          s2 = (if take 1 s1 = ascii ''-'' \<or> take 1 s1 = ascii ''+'' then drop 1 s1 else s1);
          ds = takeWhile isDigit s2
      in if ds = [] then None
         else Some (if neg then - int (decimalValue ds) else int (decimalValue ds)))"


section \<open>The session store (src/index.js, lines 147--218)\<close>

datatype role = System | User | Assistant

record message =
  role :: role
  content :: jsstring

record session =
  messages :: "message list"
  lastSeen :: nat

type_synonym sessions = "jsstring \<rightharpoonup> session"

definition SYSTEM_MESSAGE :: message where
  "SYSTEM_MESSAGE =
     \<lparr>role = System,
      content = ascii ''You are a helpful WhatsApp assistant. Keep replies concise and friendly. Use casual, short messages suitable for WhatsApp.''\<rparr>"

text \<open>
  \<open>_ensureSession(user)\<close>: the session of \<open>user\<close>, created with the system message when
  the store has none. \<open>now\<close> is the reading of \<open>Date.now()\<close>.
\<close>

definition ensureSession :: "jsstring \<Rightarrow> nat \<Rightarrow> sessions \<Rightarrow> session \<times> sessions" where
  "ensureSession user now st =
     (case st user of
        Some s \<Rightarrow> (s, st)
      | None \<Rightarrow> (\<lparr>messages = [SYSTEM_MESSAGE], lastSeen = now\<rparr>,
                 st(user \<mapsto> \<lparr>messages = [SYSTEM_MESSAGE], lastSeen = now\<rparr>)))"

text \<open>
  \<open>xs.slice(start)\<close> of JavaScript: a negative start counts from the end, and \<open>-0\<close> is
  \<open>0\<close>, so \<open>slice(-0)\<close> is the whole array.
\<close>

definition slice_from :: "int \<Rightarrow> 'a list \<Rightarrow> 'a list" where
  "slice_from start xs =
     (if start < 0 then drop (nat (int (length xs) + start)) xs else drop (nat start) xs)"

text \<open>
  \<open>_trim(session)\<close> with the configured \<open>maxMessages\<close>
  (\<open>parseInt(process.env.SESSION_MAX_MESSAGES || '12', 10)\<close>; an unparsable value is
  \<open>NaN\<close>, which \<open>slice\<close> reads as \<open>0\<close>). A session always holds its system message
  (every function of the store keeps it), so the first case is never taken.
\<close>

definition trim_session :: "int \<Rightarrow> session \<Rightarrow> session" where
  "trim_session maxMessages s =
     (case messages s of
        [] \<Rightarrow> s
      | system # rest \<Rightarrow> s\<lparr>messages := system # slice_from (- maxMessages) rest\<rparr>)"

definition appendUserMessage :: "int \<Rightarrow> jsstring \<Rightarrow> jsstring \<Rightarrow> nat \<Rightarrow> sessions \<Rightarrow> sessions" where
  "appendUserMessage maxMessages user text now st =
     (if text = [] then st
      else (case ensureSession user now st of
              (s, st1) \<Rightarrow>
                st1(user \<mapsto> trim_session maxMessages
                  (s\<lparr>messages := messages s @ [\<lparr>role = User, content = text\<rparr>], lastSeen := now\<rparr>))))"

definition appendAssistantMessage :: "int \<Rightarrow> jsstring \<Rightarrow> jsstring \<Rightarrow> nat \<Rightarrow> sessions \<Rightarrow> sessions" where
  "appendAssistantMessage maxMessages user text now st =
     (if text = [] then st
      else (case ensureSession user now st of
              (s, st1) \<Rightarrow>
                st1(user \<mapsto> trim_session maxMessages
                  (s\<lparr>messages := messages s @ [\<lparr>role = Assistant, content = text\<rparr>], lastSeen := now\<rparr>))))"

definition getConversationForOpenAI :: "jsstring \<Rightarrow> nat \<Rightarrow> sessions \<Rightarrow> message list \<times> sessions" where
  "getConversationForOpenAI user now st =
     (case ensureSession user now st of (s, st1) \<Rightarrow> (messages s, st1))"

text \<open>The history the store holds for a user (none: the empty list), without creating a session.\<close>

definition history :: "sessions \<Rightarrow> jsstring \<Rightarrow> message list" where
  "history st user = (case st user of None \<Rightarrow> [] | Some s \<Rightarrow> messages s)"

text \<open>A sequence of calls of the two append functions, each with its clock reading.\<close>

datatype append_call =
  AppendUser jsstring jsstring nat
  | AppendAssistant jsstring jsstring nat

fun apply_call :: "int \<Rightarrow> append_call \<Rightarrow> sessions \<Rightarrow> sessions" where
  "apply_call maxMessages (AppendUser user text now) st = appendUserMessage maxMessages user text now st"
| "apply_call maxMessages (AppendAssistant user text now) st = appendAssistantMessage maxMessages user text now st"

fun run_calls :: "int \<Rightarrow> append_call list \<Rightarrow> sessions \<Rightarrow> sessions" where
  "run_calls maxMessages [] st = st"
| "run_calls maxMessages (c # cs) st = run_calls maxMessages cs (apply_call maxMessages c st)"


section \<open>Outbound messages and exceptions\<close>

text \<open>
  What a JavaScript call can throw, as far as the code tells the kinds apart: an
  \<open>Error\<close> with its message, a \<open>TypeError\<close>, and the failure of an HTTP request made
  through axios.
\<close>

datatype exn = Error jsstring | TypeError jsstring | RequestFailed jsstring

text \<open>
  The observable effects, in order: every call of the outbound sender (recipient, text,
  and whether the call returned rather than threw), and every call the command router
  makes of a handler of its registry (the registry key).
\<close>

datatype event = SendText jsstring jsstring bool | Invoked jsstring

text \<open>
  The outbound sender is an HTTP request to the messaging platform; the router and the
  webhook only see whether it throws. That is outside the program, so it is a parameter:
  given the effects so far, the recipient and the text, the exception thrown, if any.
\<close>

type_synonym sender = "event list \<Rightarrow> jsstring \<Rightarrow> jsstring \<Rightarrow> exn option"

record poll =
  question :: jsstring
  options :: "jsstring list"
  votes :: "jsstring list list"
  creator :: jsstring

text \<open>
  The mutable state of the process: the poll registry \<open>POLLS\<close> of the command module, the
  session store, and the effects so far. The voter arrays of a poll (\<open>votes[0]\<close>,
  \<open>votes[1]\<close>, ...) are the list \<open>votes\<close>, in the order of the option positions.
\<close>

record world =
  POLLS :: "jsstring \<rightharpoonup> poll"
  store :: sessions
  trace :: "event list"

definition deliver :: "sender \<Rightarrow> jsstring \<Rightarrow> jsstring \<Rightarrow> world \<Rightarrow> exn option \<times> world" where
  "deliver out dest body w =
     (out (trace w) dest body,
      w\<lparr>trace := trace w @ [SendText dest body (out (trace w) dest body = None)]\<rparr>)"


section \<open>The completion client (src/openai-client.js) and the conversational flow of the webhook (src/index.js, lines 94--135)\<close>

text \<open>
  What the HTTP request to the completion service gives: it throws, or it returns a
  response in which \<open>choices[0].message.content\<close> is a text or is missing.
\<close>

datatype http_response = RequestThrows | Response "jsstring option"

definition generateReply :: "(message list \<Rightarrow> http_response) \<Rightarrow> message list \<Rightarrow> exn + jsstring" where
  "generateReply service msgs =
     (case service msgs of
        RequestThrows \<Rightarrow> Inl (RequestFailed (ascii ''chat/completions''))
      | Response None \<Rightarrow> Inl (Error (ascii ''No content in OpenAI response''))
      | Response (Some c) \<Rightarrow>
          if c = [] then Inl (Error (ascii ''No content in OpenAI response'')) else Inr (trim c))"

definition DEFAULT_REPLY :: jsstring where
  "DEFAULT_REPLY = ascii ''Sorry, I couldn't create a reply at the moment.''"

text \<open>
  The text recorded for an inbound message of type \<open>mtype\<close> whose text the webhook
  extracted as \<open>userText\<close> (\<open>None\<close>: \<open>undefined\<close>): the trimmed text, or a placeholder when
  there is none.
\<close>

definition inboundText :: "jsstring \<Rightarrow> jsstring option \<Rightarrow> jsstring" where
  "inboundText mtype userText =
     (case userText of
        None \<Rightarrow> ascii ''['' @ mtype @ ascii '' message received]''
      | Some t \<Rightarrow> if trim t = [] then ascii ''['' @ mtype @ ascii '' message received]'' else trim t)"

text \<open>
  One inbound message, from the append of the user's text to the send of the reply. The
  clock is read as \<open>now\<close> before the completion call and as \<open>later\<close> after it.
\<close>

definition conversationalFlow ::
  "int \<Rightarrow> (message list \<Rightarrow> http_response) \<Rightarrow> sender \<Rightarrow> jsstring \<Rightarrow> jsstring \<Rightarrow> jsstring option \<Rightarrow> nat \<Rightarrow> nat \<Rightarrow> world \<Rightarrow> world" where
  "conversationalFlow maxMessages service out from mtype userText now later w =
     (case getConversationForOpenAI from now
             (appendUserMessage maxMessages from (inboundText mtype userText) now (store w)) of
        (convo, st) \<Rightarrow>
          (case generateReply service convo of
             Inr reply \<Rightarrow>
               snd (deliver out from reply
                     (w\<lparr>store := appendAssistantMessage maxMessages from reply later st\<rparr>))
           | Inl err \<Rightarrow> snd (deliver out from DEFAULT_REPLY (w\<lparr>store := st\<rparr>))))"


section \<open>The command engine (src/commands\_Version3.js)\<close>

subsection \<open>Parser and safety filter\<close>

definition normalizeBare :: "jsstring \<Rightarrow> jsstring" where
  "normalizeBare jidOrNumber = digitsOnly jidOrNumber"

record command =
  cmd :: jsstring
  args :: "jsstring list"
  raw :: jsstring

definition parseCommand :: "lower_casing \<Rightarrow> jsstring \<Rightarrow> command option" where
  "parseCommand toLowerCase text =
     (if text = [] then None
      else if \<not> startsWith (trim text) (ascii ''/'') then None
      else (case split_ws (drop 1 (trim text)) of
              [] \<Rightarrow> None
            | name # rest \<Rightarrow> Some \<lparr>cmd = toLowerCase name, args = rest, raw = trim text\<rparr>))"

definition PROFANITY :: "jsstring list" where
  "PROFANITY = [ascii ''badword1'', ascii ''badword2'']"

definition containsProfanity :: "lower_casing \<Rightarrow> jsstring \<Rightarrow> bool" where
  "containsProfanity toLowerCase text =
     (if text = [] then False else list_ex (\<lambda>p. includes_str (toLowerCase text) p) PROFANITY)"

subsection \<open>The execution context\<close>

text \<open>
  The context a caller passes to \<open>handleCommand\<close>: \<open>sendText\<close> (\<open>None\<close> when the caller
  gave none) and \<open>rawCommand\<close>, which the router sets. The two readings a handler takes
  from its surroundings travel with it: \<open>date_now\<close> is \<open>Date.now()\<close> and \<open>math_random\<close> is
  \<open>Math.floor(Math.random()*1000)\<close> at the call.
\<close>

record command_context =
  sendText :: "sender option"
  rawCommand :: jsstring
  date_now :: nat
  math_random :: nat

definition ctx_sendText :: "command_context \<Rightarrow> jsstring \<Rightarrow> jsstring \<Rightarrow> world \<Rightarrow> exn option \<times> world" where
  "ctx_sendText ctx dest body w =
     (case sendText ctx of
        None \<Rightarrow> (Some (TypeError (ascii ''context.sendText is not a function'')), w)
      | Some out \<Rightarrow> deliver out dest body w)"

type_synonym handler = "jsstring \<Rightarrow> jsstring list \<Rightarrow> command_context \<Rightarrow> world \<Rightarrow> exn option \<times> world"

subsection \<open>Polls\<close>

definition dquote :: "16 word" where
  "dquote = 0x22"

definition CHECK_MARK :: jsstring where
  "CHECK_MARK = [0x2705]"

definition EM_DASH :: jsstring where
  "EM_DASH = [0x2014]"

definition generatePollId :: "nat \<Rightarrow> nat \<Rightarrow> jsstring" where
  "generatePollId now rnd = ascii ''poll_'' @ toStringRadix 36 now @ ascii ''_'' @ toStringRadix 10 rnd"

text \<open>
  The pattern of \<open>cmd_poll\<close>, piece by piece. \<open>quoted\<close> is \<open>"([^"]+)"\<close> at the head of a
  text: the captured group and the text after the closing quote.
\<close>

definition quoted :: "jsstring \<Rightarrow> (jsstring \<times> jsstring) option" where
  "quoted s =
     (case s of
        [] \<Rightarrow> None
      | c # r \<Rightarrow>
          if c = dquote then
            (if takeWhile (\<lambda>x. x \<noteq> dquote) r = [] \<or> dropWhile (\<lambda>x. x \<noteq> dquote) r = [] then None
             else Some (takeWhile (\<lambda>x. x \<noteq> dquote) r, drop 1 (dropWhile (\<lambda>x. x \<noteq> dquote) r)))
          else None)"

text \<open>\<open>\s*"([^"]+)"\<close> at the head of a text.\<close>

definition ws_quoted :: "jsstring \<Rightarrow> (jsstring \<times> jsstring) option" where
  "ws_quoted s = quoted (dropWhile isSpace s)"

text \<open>
  \<open>n\<close> times \<open>(?:\s*"([^"]+)")?\<close>: the groups that matched. Once one group fails the
  later ones fail at the same place.
\<close>

fun optional_groups :: "nat \<Rightarrow> jsstring \<Rightarrow> jsstring list" where
  "optional_groups 0 s = []"
| "optional_groups (Suc n) s =
     (case ws_quoted s of None \<Rightarrow> [] | Some (g, r) \<Rightarrow> g # optional_groups n r)"

text \<open>The whole pattern at the head of a text: group 1, and the groups 2 to 5 that matched.\<close>

definition match_here :: "jsstring \<Rightarrow> (jsstring \<times> jsstring list) option" where
  "match_here s =
     (case quoted s of
        None \<Rightarrow> None
      | Some (q, r1) \<Rightarrow>
          (case ws_quoted r1 of
             None \<Rightarrow> None
           | Some (o1, r2) \<Rightarrow> Some (q, o1 # optional_groups 3 r2)))"

text \<open>
  \<open>text.match(...)\<close>: the match at the leftmost position that has one. The result is
  \<open>m[1]\<close> and \<open>m.slice(2).filter(Boolean)\<close>.
\<close>

fun poll_match :: "jsstring \<Rightarrow> (jsstring \<times> jsstring list) option" where
  "poll_match [] = match_here []"
| "poll_match (c # s) = (case match_here (c # s) of Some m \<Rightarrow> Some m | None \<Rightarrow> poll_match s)"

definition POLL_USAGE :: jsstring where
  \<open>POLL_USAGE = ascii ''Usage: /poll "Question" "Option1" "Option2" [...]. Use quotes around each.''\<close>

definition numbered :: "jsstring list \<Rightarrow> jsstring list" where
  "numbered xs = map (\<lambda>(i, x). toStringRadix 10 i @ ascii ''. '' @ x) (enumerate 0 xs)"

definition pollCreatedText :: "jsstring \<Rightarrow> jsstring \<Rightarrow> jsstring list \<Rightarrow> jsstring" where
  "pollCreatedText ident q opts =
     CHECK_MARK @ ascii '' Poll created: '' @ ident @ [0x0A] @ ascii ''Q: '' @ q @ [0x0A]
     @ join [0x0A] (numbered opts) @ [0x0A] @ ascii ''To vote: /vote '' @ ident @ ascii '' <optionIndex>''"

definition cmd_poll :: handler where
  "cmd_poll from argv ctx w =
     (case poll_match (join (ascii '' '') argv) of
        None \<Rightarrow> ctx_sendText ctx from POLL_USAGE w
      | Some (q, opts) \<Rightarrow>
          if length opts < 2 then ctx_sendText ctx from (ascii ''Create a poll with at least 2 options.'') w
          else ctx_sendText ctx from
                 (pollCreatedText (generatePollId (date_now ctx) (math_random ctx)) q opts)
                 (w\<lparr>POLLS := (POLLS w)(generatePollId (date_now ctx) (math_random ctx) \<mapsto>
                      \<lparr>question = q, options = opts, votes = map (\<lambda>_. []) opts,
                       creator = normalizeBare from\<rparr>)\<rparr>))"

text \<open>
  The per-option counts \<open>cmd_vote\<close> reports: each option with the number of its voters.
\<close>

definition tally :: "poll \<Rightarrow> (jsstring \<times> nat) list" where
  "tally p = map (\<lambda>(i, opt). (opt, length (votes p ! i))) (enumerate 0 (options p))"

definition resultsText :: "poll \<Rightarrow> jsstring" where
  "resultsText p =
     ascii ''Poll: '' @ question p @ [0x0A]
     @ join [0x0A]
         (map (\<lambda>(i, (opt, n)). toStringRadix 10 i @ ascii ''. '' @ opt @ ascii '' '' @ EM_DASH @ ascii '' ''
                                 @ toStringRadix 10 n @ ascii '' votes'')
              (enumerate 0 (tally p)))"

text \<open>
  The part of \<open>cmd_vote\<close> after the poll was found, in the order of the source: the
  voter's earlier votes are removed from every voter array (\<open>indexOf\<close> and \<open>splice\<close>: the
  first occurrence), then the option position is checked, then the vote is pushed and
  the two replies are sent. A poll with fewer voter arrays than options makes the
  results line throw (\<open>poll.votes[i].length\<close> of \<open>undefined\<close>).
\<close>

definition vote_in_poll :: "jsstring \<Rightarrow> poll \<Rightarrow> int \<Rightarrow> handler" where
  "vote_in_poll pollId p idx from argv ctx w =
     (if idx < 0 \<or> int (length (votes p)) \<le> idx then
        ctx_sendText ctx from (ascii ''Invalid option index.'')
          (w\<lparr>POLLS := (POLLS w)(pollId \<mapsto> p\<lparr>votes := map (remove1 (normalizeBare from)) (votes p)\<rparr>)\<rparr>)
      else
        (case ctx_sendText ctx from
                (CHECK_MARK @ ascii '' Your vote for option '' @ toStringRadix 10 (nat idx) @ ascii '' recorded.'')
                (w\<lparr>POLLS := (POLLS w)(pollId \<mapsto>
                     p\<lparr>votes := (map (remove1 (normalizeBare from)) (votes p))
                        [nat idx := map (remove1 (normalizeBare from)) (votes p) ! nat idx @ [normalizeBare from]]\<rparr>)\<rparr>) of
           (Some e, w1) \<Rightarrow> (Some e, w1)
         | (None, w1) \<Rightarrow>
             if length (votes p) < length (options p) then
               (Some (TypeError (ascii ''Cannot read properties of undefined (reading 'length')'')), w1)
             else ctx_sendText ctx from
                    (resultsText (p\<lparr>votes := (map (remove1 (normalizeBare from)) (votes p))
                        [nat idx := map (remove1 (normalizeBare from)) (votes p) ! nat idx @ [normalizeBare from]]\<rparr>))
                    w1))"

definition cmd_vote :: handler where
  "cmd_vote from argv ctx w =
     (case argv of
        pollId # a # _ \<Rightarrow>
          (case parseInt10 a of
             None \<Rightarrow> ctx_sendText ctx from (ascii ''Usage: /vote <pollId> <optionIndex>'') w
           | Some idx \<Rightarrow>
               if pollId = [] then ctx_sendText ctx from (ascii ''Usage: /vote <pollId> <optionIndex>'') w
               else (case POLLS w pollId of
                       None \<Rightarrow> ctx_sendText ctx from (ascii ''Poll not found.'') w
                     | Some p \<Rightarrow> vote_in_poll pollId p idx from argv ctx w))
      | _ \<Rightarrow> ctx_sendText ctx from (ascii ''Usage: /vote <pollId> <optionIndex>'') w)"


text \<open>
  A sequence of calls of the two poll handlers, each with its sender, its arguments and
  its context; the replies are sent and the exceptions, if any, are dropped.
\<close>

datatype poll_call =
  PollCall jsstring "jsstring list" command_context
  | VoteCall jsstring "jsstring list" command_context

fun apply_poll_call :: "poll_call \<Rightarrow> world \<Rightarrow> world" where
  "apply_poll_call (PollCall from argv ctx) w = snd (cmd_poll from argv ctx w)"
| "apply_poll_call (VoteCall from argv ctx) w = snd (cmd_vote from argv ctx w)"

fun run_poll_calls :: "poll_call list \<Rightarrow> world \<Rightarrow> world" where
  "run_poll_calls [] w = w"
| "run_poll_calls (c # cs) w = run_poll_calls cs (apply_poll_call c w)"

subsection \<open>Registry and router\<close>

text \<open>
  The entries of \<open>COMMANDS\<close>, with the fields the router reads (the menu alone reads
  \<open>title\<close> and \<open>category\<close>).
\<close>

record command_info =
  ident :: jsstring
  description :: jsstring
  usage :: jsstring

definition COMMANDS :: "command_info list" where
  \<open>COMMANDS =
     [\<lparr>ident = ascii ''help'', description = ascii ''Show help and commands'', usage = ascii ''/help''\<rparr>,
      \<lparr>ident = ascii ''menu'', description = ascii ''Open interactive menu'', usage = ascii ''/menu''\<rparr>,
      \<lparr>ident = ascii ''reset'', description = ascii ''Reset your conversation'', usage = ascii ''/reset''\<rparr>,
      \<lparr>ident = ascii ''summary'', description = ascii ''Summarize the conversation'', usage = ascii ''/summary''\<rparr>,
      \<lparr>ident = ascii ''export'', description = ascii ''Export recent conversation'', usage = ascii ''/export''\<rparr>,
      \<lparr>ident = ascii ''translate'', description = ascii ''Translate text to target language'',
        usage = ascii ''/translate <lang> <text>''\<rparr>,
      \<lparr>ident = ascii ''define'', description = ascii ''Get a concise definition'', usage = ascii ''/define <word>''\<rparr>,
      \<lparr>ident = ascii ''tts'', description = ascii ''Generate a short TTS audio link (optional)'',
        usage = ascii ''/tts <text>''\<rparr>,
      \<lparr>ident = ascii ''download'', description = ascii ''Download last sent image/video/document'',
        usage = ascii ''/download''\<rparr>,
      \<lparr>ident = ascii ''video'', description = ascii ''Download video from URL'', usage = ascii ''/video <url>''\<rparr>,
      \<lparr>ident = ascii ''image'', description = ascii ''Generate an image from prompt (requires OpenAI image key)'',
        usage = ascii ''/image <prompt>''\<rparr>,
      \<lparr>ident = ascii ''joke'', description = ascii ''Tell a joke'', usage = ascii ''/joke''\<rparr>,
      \<lparr>ident = ascii ''meme'', description = ascii ''Generate meme caption'', usage = ascii ''/meme <topic>''\<rparr>,
      \<lparr>ident = ascii ''flirt'', description = ascii ''Send a playful flirt'', usage = ascii ''/flirt [name]''\<rparr>,
      \<lparr>ident = ascii ''compliment'', description = ascii ''Send a compliment'', usage = ascii ''/compliment [name]''\<rparr>,
      \<lparr>ident = ascii ''insult'', description = ascii ''Send a mild playful insult'', usage = ascii ''/insult [name]''\<rparr>,
      \<lparr>ident = ascii ''wasted'', description = ascii ''Send wasted meme'', usage = ascii ''/wasted [name]''\<rparr>,
      \<lparr>ident = ascii ''poll'', description = ascii ''Create a simple poll'',
        usage = ascii ''/poll "Question" "Option1" "Option2" [...]]''\<rparr>,
      \<lparr>ident = ascii ''vote'', description = ascii ''Vote in a poll'', usage = ascii ''/vote <pollId> <optionIndex>''\<rparr>,
      \<lparr>ident = ascii ''broadcast'', description = ascii ''Admin: send broadcast'', usage = ascii ''/broadcast <message>''\<rparr>,
      \<lparr>ident = ascii ''stats'', description = ascii ''Admin: show usage stats'', usage = ascii ''/stats''\<rparr>]\<close>

text \<open>
  The registry \<open>HANDLERS\<close>. The two poll handlers are the functions above. The other
  nineteen handlers format canned replies or talk to the file system, the messaging
  platform and the completion service; they are not embedded, and what each of them
  does is the parameter \<open>others\<close>, so a statement about the router holds whatever they
  do. \<open>HANDLERS\<close> is a plain object, so a lookup also finds what it inherits. The
  router looks up the result of \<open>toLowerCase\<close>, which has no upper-case ASCII letter,
  or a word of a usage line; of the inherited keys only two can be met that way:
  \<open>constructor\<close> (the function \<open>Object\<close>, which returns without effect) and \<open>__proto__\<close>
  (an object that is not a function: the call throws).
\<close>

definition OTHER_HANDLERS :: "jsstring list" where
  "OTHER_HANDLERS =
     [ascii ''help'', ascii ''menu'', ascii ''reset'', ascii ''summary'', ascii ''export'', ascii ''translate'', ascii ''define'', ascii ''tts'',
      (ascii ''download''), ascii ''video'', ascii ''image'', ascii ''joke'', ascii ''meme'', ascii ''flirt'', ascii ''compliment'', ascii ''insult'',
      (ascii ''wasted''), ascii ''broadcast'', ascii ''stats'']"

definition HANDLERS :: "(jsstring \<Rightarrow> handler) \<Rightarrow> jsstring \<Rightarrow> handler option" where
  "HANDLERS others name =
     (if name = ascii ''poll'' then Some cmd_poll
      else if name = ascii ''vote'' then Some cmd_vote
      else if name \<in> set OTHER_HANDLERS then Some (others name)
      else if name = ascii ''constructor'' then Some (\<lambda>from argv ctx w. (None, w))
      else if name = ascii ''__proto__'' then
        Some (\<lambda>from argv ctx w. (Some (TypeError (ascii ''handler is not a function'')), w))
      else None)"

datatype outcome = Returned bool | Thrown exn

definition PROFANITY_WARNING :: jsstring where
  "PROFANITY_WARNING = ascii ''Please avoid profanity.''"

definition HANDLER_ERROR_REPLY :: jsstring where
  "HANDLER_ERROR_REPLY = ascii ''Sorry '' @ EM_DASH @ ascii '' an error occurred while running that command.''"

text \<open>The last step of \<open>handleCommand\<close>: the reply to an unknown command.\<close>

definition unknownCommand :: "jsstring \<Rightarrow> jsstring \<Rightarrow> command_context \<Rightarrow> world \<Rightarrow> outcome \<times> world" where
  \<open>unknownCommand from name ctx w =
     (case ctx_sendText ctx from ((ascii ''Unknown command "/'') @ name @ ascii ''". Send /help or /menu.'') w of
        (Some e, w1) \<Rightarrow> (Thrown e, w1)
      | (None, w1) \<Rightarrow> (Returned True, w1))\<close>

text \<open>
  The step before it: a command of the form \<open>cmd:<id>\<close>, as a menu selection sends it.
  The handler is called with the words of the usage line; what it throws is logged and
  dropped.
\<close>

definition menuSelection ::
  "(jsstring \<Rightarrow> handler) \<Rightarrow> jsstring \<Rightarrow> jsstring \<Rightarrow> command_context \<Rightarrow> world \<Rightarrow> outcome \<times> world" where
  "menuSelection others from name ctx w =
     (if startsWith name (ascii ''cmd:'') then
        (case find (\<lambda>c. ident c = drop 4 name) COMMANDS of
           None \<Rightarrow> unknownCommand from name ctx w
         | Some target \<Rightarrow>
             (case split_ws (usage target) of
                [] \<Rightarrow> unknownCommand from name ctx w
              | first # usageArgs \<Rightarrow>
                  (case HANDLERS others (remove1 0x2F first) of
                     Some h \<Rightarrow>
                       (Returned True,
                        snd (h from usageArgs ctx
                              (w\<lparr>trace := trace w @ [Invoked (remove1 0x2F first)]\<rparr>)))
                   | None \<Rightarrow>
                       (case ctx_sendText ctx from
                               (if description target = [] then ascii ''Command selected.''
                                else description target) w of
                          (Some e, w1) \<Rightarrow> (Thrown e, w1)
                        | (None, w1) \<Rightarrow> (Returned True, w1)))))
      else unknownCommand from name ctx w)"

text \<open>
  \<open>handleCommand(from, text, context)\<close>: the value it resolves to (\<open>Returned handled\<close>) or
  the exception it rejects with, and the state after it. The context the handlers get
  is the caller's with \<open>rawCommand\<close> set to the text.
\<close>

definition handleCommand ::
  "lower_casing \<Rightarrow> (jsstring \<Rightarrow> handler) \<Rightarrow> jsstring \<Rightarrow> jsstring \<Rightarrow> command_context \<Rightarrow> world \<Rightarrow> outcome \<times> world" where
  "handleCommand toLowerCase others from text ctx0 w =
     (case parseCommand toLowerCase text of
        None \<Rightarrow> (Returned False, w)
      | Some parsed \<Rightarrow>
          if sendText ctx0 = None then (Thrown (Error (ascii ''context.sendText must be provided'')), w)
          else if containsProfanity toLowerCase text then
            (case ctx_sendText (ctx0\<lparr>rawCommand := text\<rparr>) from PROFANITY_WARNING w of
               (Some e, w1) \<Rightarrow> (Thrown e, w1)
             | (None, w1) \<Rightarrow> (Returned True, w1))
          else
            (case HANDLERS others (cmd parsed) of
               Some h \<Rightarrow>
                 (case h from (args parsed) (ctx0\<lparr>rawCommand := text\<rparr>)
                         (w\<lparr>trace := trace w @ [Invoked (cmd parsed)]\<rparr>) of
                    (None, w1) \<Rightarrow> (Returned True, w1)
                  | (Some err, w1) \<Rightarrow>
                      (Returned True,
                       snd (ctx_sendText (ctx0\<lparr>rawCommand := text\<rparr>) from HANDLER_ERROR_REPLY w1)))
             | None \<Rightarrow> menuSelection others from (cmd parsed) (ctx0\<lparr>rawCommand := text\<rparr>) w))"


section \<open>Notions used in the statements\<close>

text \<open>
  A session as the store keeps it: its first message is the system message, no later
  message has the system role, and at most \<open>m\<close> messages follow the first.
\<close>

definition session_ok :: "int \<Rightarrow> session \<Rightarrow> bool" where
  "session_ok m s =
     (\<exists>rest. messages s = SYSTEM_MESSAGE # rest \<and> System \<notin> role ` set rest \<and> int (length rest) \<le> m)"

text \<open>How often a voter is listed in the voter arrays of a poll, all options together.\<close>

definition times_listed :: "jsstring \<Rightarrow> jsstring list list \<Rightarrow> nat" where
  "times_listed voter vss = sum_list (map (\<lambda>vs. count_list vs voter) vss)"

text \<open>Every poll of the registry lists every voter at most once.\<close>

definition polls_ok :: "world \<Rightarrow> bool" where
  "polls_ok w = (\<forall>pid p u. POLLS w pid = Some p \<longrightarrow> times_listed u (votes p) \<le> 1)"

text \<open>
  The text of a quoted argument, \<open>"x"\<close>; a text that can stand between two quotes (it is
  not empty and has no quote); and a run of quoted arguments, each after its separator.
\<close>

definition wrap :: "jsstring \<Rightarrow> jsstring" where
  "wrap x = dquote # x @ [dquote]"

definition plain :: "jsstring \<Rightarrow> bool" where
  "plain x = (x \<noteq> [] \<and> dquote \<notin> set x)"

definition quote_count :: "jsstring \<Rightarrow> nat" where
  "quote_count s = length (filter (\<lambda>c. c = dquote) s)"

fun quoted_run :: "(jsstring \<times> jsstring) list \<Rightarrow> jsstring" where
  "quoted_run [] = []"
| "quoted_run ((sep, x) # xs) = sep @ wrap x @ quoted_run xs"

text \<open>
  The calls of a sequence that store a poll: the calls of \<open>cmd_poll\<close> whose arguments
  give a question and at least two options, each as the clock reading and the random
  draw it was made with.
\<close>

fun creations :: "poll_call list \<Rightarrow> (nat \<times> nat) list" where
  "creations [] = []"
| "creations (PollCall from argv ctx # cs) =
     (case poll_match (join (ascii '' '') argv) of
        None \<Rightarrow> creations cs
      | Some (q, opts) \<Rightarrow>
          if length opts < 2 then creations cs
          else (date_now ctx, math_random ctx) # creations cs)"
| "creations (VoteCall from argv ctx # cs) = creations cs"


section \<open>Inputs for the examples\<close>

text \<open>
  The lower-casing of the examples: the letters A to Z go to a to z and every other
  code unit stays. \<open>toLowerCase\<close> of the runtime does the same on every text of the
  examples (ASCII texts, and one with a no-break space, which has no case).
\<close>

definition lowerASCII :: lower_casing where
  "lowerASCII s = map (\<lambda>c. if 0x41 \<le> c \<and> c \<le> 0x5A then c + 0x20 else c) s"

text \<open>A sender that always delivers, and one that always fails.\<close>

definition reliable :: sender where
  "reliable = (\<lambda>tr dest body. None)"

definition offline :: sender where
  "offline = (\<lambda>tr dest body. Some (RequestFailed (ascii ''messages'')))"

definition exampleContext :: "sender \<Rightarrow> command_context" where
  "exampleContext out = \<lparr>sendText = Some out, rawCommand = [], date_now = 0, math_random = 7\<rparr>"

text \<open>Other handlers that return at once, and other handlers that throw at once.\<close>

definition idleHandlers :: "jsstring \<Rightarrow> handler" where
  "idleHandlers = (\<lambda>name from argv ctx w. (None, w))"

definition failingHandlers :: "jsstring \<Rightarrow> handler" where
  "failingHandlers = (\<lambda>name from argv ctx w. (Some (Error name), w))"

definition emptyWorld :: world where
  "emptyWorld = \<lparr>POLLS = Map.empty, store = Map.empty, trace = []\<rparr>"

text \<open>
  The calls \<open>/poll "Q" "A" "B"\<close> and \<open>/vote poll_0_7 a\<close> of the sender 15551234, with the
  clock at 0 and the random draw 7 (the poll gets the identifier \<open>poll_0_7\<close>).
\<close>

definition examplePoll :: poll_call where
  "examplePoll = PollCall (ascii ''15551234'') [wrap (ascii ''Q''), wrap (ascii ''A''), wrap (ascii ''B'')] (exampleContext reliable)"

definition exampleVote :: "jsstring \<Rightarrow> poll_call" where
  "exampleVote a = VoteCall (ascii ''15551234'') [ascii ''poll_0_7'', a] (exampleContext reliable)"


section \<open>The session store: trimming and the history invariant\<close>

lemma ascii_Nil [simp]: "ascii [] = []"
  by (simp add: ascii_def)

lemma ascii_Cons [simp]: "ascii (c # s) = word_of_int (of_char c) # ascii s"
  by (simp add: ascii_def)

lemma slice_from_length: "0 < m \<Longrightarrow> int (length (slice_from (- m) xs)) \<le> m"
  by (auto simp: slice_from_def)

lemma slice_from_subset: "set (slice_from k xs) \<subseteq> set xs"
  by (auto simp: slice_from_def dest: in_set_dropD)

lemma messages_trim_session:
  "messages (trim_session m s) =
     (case messages s of [] \<Rightarrow> [] | sys # rest \<Rightarrow> sys # slice_from (- m) rest)"
  by (simp add: trim_session_def split: list.splits)

lemma trim_session_ok:
  assumes "0 < m" "messages s = SYSTEM_MESSAGE # rest" "System \<notin> role ` set rest"
  shows "session_ok m (trim_session m s)"
  using assms slice_from_length[of m rest] slice_from_subset[of "- m" rest]
  by (auto simp: session_ok_def trim_session_def)

lemma ensureSession_first:
  assumes "\<forall>u s. st u = Some s \<longrightarrow> session_ok m s" "ensureSession user now st = (s0, st1)"
  shows "\<exists>rest. messages s0 = SYSTEM_MESSAGE # rest \<and> System \<notin> role ` set rest"
proof (cases "st user")
  case None
  then show ?thesis
    using assms(2) by (auto simp: ensureSession_def SYSTEM_MESSAGE_def)
next
  case (Some s')
  then have "session_ok m s'" and "s0 = s'"
    using assms by (auto simp: ensureSession_def)
  then show ?thesis
    unfolding session_ok_def by blast
qed

text \<open>The body the two append functions share, for a role other than the system role.\<close>

lemma append_ok:
  assumes "0 < m" "\<forall>u s. st u = Some s \<longrightarrow> session_ok m s" "r \<noteq> System"
  shows "\<forall>u s. (if body = [] then st
      else (case ensureSession user now st of
              (s, st1) \<Rightarrow>
                st1(user \<mapsto> trim_session m
                  (s\<lparr>messages := messages s @ [\<lparr>role = r, content = body\<rparr>], lastSeen := now\<rparr>)))) u = Some s
            \<longrightarrow> session_ok m s"
proof (cases "body = []")
  case True
  then show ?thesis
    using assms by simp
next
  case False
  obtain s0 st1 where e: "ensureSession user now st = (s0, st1)"
    by (cases "ensureSession user now st")
  have st1: "\<forall>u s. u \<noteq> user \<longrightarrow> st1 u = Some s \<longrightarrow> session_ok m s"
    using e assms(2) by (auto simp: ensureSession_def split: option.splits)
  from ensureSession_first[OF assms(2) e] obtain rest
    where rest: "messages s0 = SYSTEM_MESSAGE # rest" "System \<notin> role ` set rest"
    by blast
  have "session_ok m (trim_session m
          (s0\<lparr>messages := messages s0 @ [\<lparr>role = r, content = body\<rparr>], lastSeen := now\<rparr>))"
    using rest assms(3)
    by (intro trim_session_ok[OF assms(1), where rest = "rest @ [\<lparr>role = r, content = body\<rparr>]"]) auto
  then show ?thesis
    using False e st1 by auto
qed

lemma run_calls_ok:
  assumes "0 < m" "\<forall>u s. st u = Some s \<longrightarrow> session_ok m s"
  shows "\<forall>u s. run_calls m calls st u = Some s \<longrightarrow> session_ok m s"
  using assms(2)
proof (induction calls arbitrary: st)
  case Nil
  then show ?case by simp
next
  case (Cons c cs)
  have "\<forall>u s. apply_call m c st u = Some s \<longrightarrow> session_ok m s"
  proof (cases c)
    case (AppendUser user body now)
    then show ?thesis
      using append_ok[OF assms(1) Cons.prems, of User body user now]
      by (simp add: appendUserMessage_def)
  next
    case (AppendAssistant user body now)
    then show ?thesis
      using append_ok[OF assms(1) Cons.prems, of Assistant body user now]
      by (simp add: appendAssistantMessage_def)
  qed
  then show ?case
    using Cons.IH by simp
qed

text \<open>
  Claim C3, as amended. With \<open>maxMessages = 1\<close>, appending the user's "hi", the assistant's
  "hello" and then the user's "bye" for a user the store has never seen leaves the
  history [SYSTEM, user "bye"]: trimming runs after each append and keeps the newest
  single entry, so "hi" goes at the second append and "hello" at the third.
\<close>

theorem trim_scenario_keeps_newest_entry:
  "history (run_calls 1 [AppendUser (ascii ''U1'') (ascii ''hi'') 0, AppendAssistant (ascii ''U1'') (ascii ''hello'') 1,
                         AppendUser (ascii ''U1'') (ascii ''bye'') 2] Map.empty) (ascii ''U1'')
     = [SYSTEM_MESSAGE, \<lparr>role = User, content = ascii ''bye''\<rparr>]"
  by (simp add: history_def appendUserMessage_def appendAssistantMessage_def ensureSession_def
      trim_session_def slice_from_def)

text \<open>
  Claim C3 as stated fails: the history after the three appends is not
  [SYSTEM, assistant "hello", user "bye"], which would hold two entries under a cap of one.
\<close>

theorem trim_scenario_not_two_entries:
  "history (run_calls 1 [AppendUser (ascii ''U1'') (ascii ''hi'') 0, AppendAssistant (ascii ''U1'') (ascii ''hello'') 1,
                         AppendUser (ascii ''U1'') (ascii ''bye'') 2] Map.empty) (ascii ''U1'')
     \<noteq> [SYSTEM_MESSAGE, \<lparr>role = Assistant, content = ascii ''hello''\<rparr>, \<lparr>role = User, content = ascii ''bye''\<rparr>]"
  by (simp add: history_def appendUserMessage_def appendAssistantMessage_def ensureSession_def
      trim_session_def slice_from_def)

text \<open>
  For a cap \<open>maxMessages\<close> of at least one, after any sequence of calls of the two append
  functions on the empty store, every session has the system message first and no other
  message of the system role, and holds at most \<open>maxMessages\<close> messages after it.
\<close>

lemma history_invariant:
  assumes "0 < maxMessages"
      and "run_calls maxMessages calls Map.empty user = Some s"
  shows "int (length (messages s)) - 1 \<le> maxMessages
       \<and> (\<exists>rest. messages s = SYSTEM_MESSAGE # rest \<and> System \<notin> role ` set rest)
       \<and> role SYSTEM_MESSAGE = System"
proof -
  have "session_ok maxMessages s"
    using run_calls_ok[OF assms(1), of Map.empty calls] assms(2) by simp
  then obtain rest where r: "messages s = SYSTEM_MESSAGE # rest" "System \<notin> role ` set rest"
      "int (length rest) \<le> maxMessages"
    by (auto simp: session_ok_def)
  have "\<exists>rest. messages s = SYSTEM_MESSAGE # rest \<and> System \<notin> role ` set rest"
    using r(1,2) by blast
  then show ?thesis
    using r by (simp add: SYSTEM_MESSAGE_def)
qed

lemma history_invariant_witness:
  "(0::int) < 1
   \<and> run_calls 1 [AppendUser (ascii ''U1'') (ascii ''hi'') 0, AppendAssistant (ascii ''U1'') (ascii ''hello'') 1] Map.empty (ascii ''U1'')
       = Some \<lparr>messages = [SYSTEM_MESSAGE, \<lparr>role = Assistant, content = ascii ''hello''\<rparr>], lastSeen = 1\<rparr>
   \<and> int (length [SYSTEM_MESSAGE, \<lparr>role = Assistant, content = ascii ''hello''\<rparr>]) - 1 \<le> 1
   \<and> role SYSTEM_MESSAGE = System"
proof -
  have a: "(0::int) < 1"
    by simp
  have b: "run_calls 1 [AppendUser (ascii ''U1'') (ascii ''hi'') 0, AppendAssistant (ascii ''U1'') (ascii ''hello'') 1] Map.empty (ascii ''U1'')
       = Some \<lparr>messages = [SYSTEM_MESSAGE, \<lparr>role = Assistant, content = ascii ''hello''\<rparr>], lastSeen = 1\<rparr>"
    by (simp add: appendUserMessage_def appendAssistantMessage_def ensureSession_def
        trim_session_def slice_from_def)
  show ?thesis
    using a b history_invariant[OF a b] by simp
qed

text \<open>
  Claim C4 fails on the code. With the cap \<open>maxMessages = 0\<close> (the environment variable
  \<open>SESSION_MAX_MESSAGES\<close> set to 0), \<open>_trim\<close> keeps \<open>rest.slice(-0)\<close>, which is \<open>rest.slice(0)\<close>,
  the whole array: nothing is ever dropped. After the first append the history is
  [SYSTEM, user "hi"], one message more than the cap allows, and after three appends it
  holds all three messages. For every cap of at least one the same \<open>slice\<close> keeps the
  newest \<open>maxMessages\<close> messages, as the lemma above shows.
\<close>

theorem history_bound_fails_for_zero_cap:
  "history (run_calls 0 [AppendUser (ascii ''U1'') (ascii ''hi'') 0] Map.empty) (ascii ''U1'')
     = [SYSTEM_MESSAGE, \<lparr>role = User, content = ascii ''hi''\<rparr>]
   \<and> \<not> int (length (history (run_calls 0 [AppendUser (ascii ''U1'') (ascii ''hi'') 0] Map.empty) (ascii ''U1''))) - 1 \<le> 0
   \<and> history (run_calls 0 [AppendUser (ascii ''U1'') (ascii ''hi'') 0, AppendAssistant (ascii ''U1'') (ascii ''hello'') 1,
                           AppendUser (ascii ''U1'') (ascii ''bye'') 2] Map.empty) (ascii ''U1'')
     = [SYSTEM_MESSAGE, \<lparr>role = User, content = ascii ''hi''\<rparr>, \<lparr>role = Assistant, content = ascii ''hello''\<rparr>,
        \<lparr>role = User, content = ascii ''bye''\<rparr>]"
  by (simp add: history_def appendUserMessage_def appendAssistantMessage_def ensureSession_def
      trim_session_def slice_from_def)

text \<open>
  Claim C6, as amended. Both append functions leave the store as it is when the text is
  empty: no message, no timestamp, no session.
\<close>

theorem append_empty_text_is_noop:
  "appendUserMessage maxMessages user [] now st = st
   \<and> appendAssistantMessage maxMessages user [] now st = st"
  by (simp add: appendUserMessage_def appendAssistantMessage_def)

text \<open>
  Claim C6 as stated fails for a text of white space only: the store takes a single space
  as a text like any other, creates the session and appends the message. (The webhook
  trims the user's text before it calls the store.)
\<close>

theorem append_whitespace_text_is_recorded:
  "history Map.empty (ascii ''U1'') = []
   \<and> history (appendUserMessage 12 (ascii ''U1'') (ascii '' '') 0 Map.empty) (ascii ''U1'')
       = [SYSTEM_MESSAGE, \<lparr>role = User, content = ascii '' ''\<rparr>]"
  by (simp add: history_def appendUserMessage_def ensureSession_def trim_session_def slice_from_def)


section \<open>The conversational flow when the completion service fails\<close>

lemma slice_keeps_last:
  assumes "0 \<le> m"
  shows "\<exists>ys. slice_from (- m) (xs @ [x]) = ys @ [x]"
proof (cases "m = 0")
  case True
  then show ?thesis
    by (simp add: slice_from_def)
next
  case False
  then have "slice_from (- m) (xs @ [x]) = drop (nat (1 + int (length xs) - m)) xs @ [x]"
    using assms by (simp add: slice_from_def)
  then show ?thesis
    by (intro exI[where x = "drop (nat (1 + int (length xs) - m)) xs"])
qed

lemma trim_keeps_last:
  assumes "0 \<le> m" "messages s = xs @ [x]"
  shows "\<exists>earlier. messages (trim_session m s) = earlier @ [x]"
proof (cases xs)
  case Nil
  have "messages (trim_session m s) = [] @ [x]"
    unfolding messages_trim_session assms(2) Nil by (simp add: slice_from_def)
  then show ?thesis
    by (intro exI[where x = "[]"])
next
  case (Cons sys rest)
  obtain ys where ys: "slice_from (- m) (rest @ [x]) = ys @ [x]"
    using slice_keeps_last[OF assms(1), of rest x] by blast
  have "messages (trim_session m s) = (sys # ys) @ [x]"
    unfolding messages_trim_session assms(2) Cons by (simp add: ys)
  then show ?thesis
    by (intro exI[where x = "sys # ys"])
qed

lemma inboundText_nonempty: "inboundText mtype userText \<noteq> []"
  by (simp add: inboundText_def split: option.splits)

lemma append_user_last:
  assumes "0 \<le> m" "body \<noteq> []"
  shows "\<exists>s earlier. appendUserMessage m user body now st user = Some s
           \<and> messages s = earlier @ [\<lparr>role = User, content = body\<rparr>]"
proof -
  obtain s0 st1 where e: "ensureSession user now st = (s0, st1)"
    by (cases "ensureSession user now st")
  define s1 where "s1 = s0\<lparr>messages := messages s0 @ [\<lparr>role = User, content = body\<rparr>], lastSeen := now\<rparr>"
  have a: "appendUserMessage m user body now st user = Some (trim_session m s1)"
    using assms(2) e by (simp add: appendUserMessage_def s1_def)
  have "messages s1 = messages s0 @ [\<lparr>role = User, content = body\<rparr>]"
    by (simp add: s1_def)
  from trim_keeps_last[OF assms(1) this] obtain earlier
    where "messages (trim_session m s1) = earlier @ [\<lparr>role = User, content = body\<rparr>]" ..
  with a show ?thesis
    by blast
qed

lemma getConversation_of_session:
  assumes "st user = Some s"
  shows "getConversationForOpenAI user now st = (messages s, st)"
  using assms by (simp add: getConversationForOpenAI_def ensureSession_def)

text \<open>
  Claim C8. When \<open>generateReply\<close> fails on the conversation of an inbound message, the
  store after the flow is the store after the append of the user's text: that text is
  the last message of the sender's history and no assistant message follows it; the one
  message sent is the fixed apology, to the sender. \<open>generateReply\<close> fails on a response
  whose content is missing or empty. The cap is taken not to be negative (a negative
  \<open>maxMessages\<close> makes \<open>_trim\<close> drop from the front, the new message included).
\<close>

theorem completion_failure_keeps_user_message:
  assumes "0 \<le> maxMessages"
      and "generateReply service (fst (getConversationForOpenAI from now
              (appendUserMessage maxMessages from (inboundText mtype userText) now (store w)))) = Inl err"
  shows "store (conversationalFlow maxMessages service out from mtype userText now later w)
           = appendUserMessage maxMessages from (inboundText mtype userText) now (store w)
       \<and> (\<exists>earlier. history (store (conversationalFlow maxMessages service out from mtype userText now later w)) from
              = earlier @ [\<lparr>role = User, content = inboundText mtype userText\<rparr>])
       \<and> trace (conversationalFlow maxMessages service out from mtype userText now later w)
           = trace w @ [SendText from DEFAULT_REPLY (out (trace w) from DEFAULT_REPLY = None)]
       \<and> generateReply (\<lambda>msgs. Response None) convo = Inl (Error (ascii ''No content in OpenAI response''))
       \<and> generateReply (\<lambda>msgs. Response (Some [])) convo = Inl (Error (ascii ''No content in OpenAI response''))"
proof -
  define body where "body = inboundText mtype userText"
  define st where "st = appendUserMessage maxMessages from body now (store w)"
  have "body \<noteq> []"
    unfolding body_def by (rule inboundText_nonempty)
  from append_user_last[OF assms(1) this, of "from" now "store w"]
  obtain s earlier where s: "st from = Some s" "messages s = earlier @ [\<lparr>role = User, content = body\<rparr>]"
    unfolding st_def by blast
  have g: "getConversationForOpenAI from now st = (messages s, st)"
    using s(1) by (rule getConversation_of_session)
  have f: "generateReply service (messages s) = Inl err"
    using assms(2) g unfolding st_def body_def by simp
  have flow: "conversationalFlow maxMessages service out from mtype userText now later w
               = snd (deliver out from DEFAULT_REPLY (w\<lparr>store := st\<rparr>))"
    unfolding conversationalFlow_def body_def[symmetric] st_def[symmetric] g by (simp add: f)
  have h: "history st from = earlier @ [\<lparr>role = User, content = body\<rparr>]"
    using s by (simp add: history_def)
  show ?thesis
    unfolding flow body_def[symmetric] st_def[symmetric]
    by (simp add: deliver_def h generateReply_def)
qed

theorem completion_failure_keeps_user_message_witness:
  "history (store (conversationalFlow 12 (\<lambda>msgs. Response None) reliable (ascii ''15551234'') (ascii ''text'')
                     (Some (ascii '' hi '')) 0 1 emptyWorld)) (ascii ''15551234'')
      = [SYSTEM_MESSAGE, \<lparr>role = User, content = ascii ''hi''\<rparr>]
   \<and> trace (conversationalFlow 12 (\<lambda>msgs. Response None) reliable (ascii ''15551234'') (ascii ''text'')
              (Some (ascii '' hi '')) 0 1 emptyWorld)
      = [SendText (ascii ''15551234'') DEFAULT_REPLY True]"
proof -
  have a: "(0::int) \<le> 12"
    by simp
  have b: "generateReply (\<lambda>msgs. Response None) (fst (getConversationForOpenAI (ascii ''15551234'') 0
              (appendUserMessage 12 (ascii ''15551234'') (inboundText (ascii ''text'') (Some (ascii '' hi ''))) 0 (store emptyWorld))))
            = Inl (Error (ascii ''No content in OpenAI response''))"
    by (simp add: generateReply_def)
  have c: "inboundText (ascii ''text'') (Some (ascii '' hi '')) = ascii ''hi''"
    by code_simp
  have d: "history (appendUserMessage 12 (ascii ''15551234'') (ascii ''hi'') 0 Map.empty) (ascii ''15551234'')
             = [SYSTEM_MESSAGE, \<lparr>role = User, content = ascii ''hi''\<rparr>]"
    by (simp add: history_def appendUserMessage_def ensureSession_def trim_session_def slice_from_def)
  note t = completion_failure_keeps_user_message[OF a b, where out = reliable and later = 1 and convo = "[]"]
  have h1: "store (conversationalFlow 12 (\<lambda>msgs. Response None) reliable (ascii ''15551234'') (ascii ''text'')
                    (Some (ascii '' hi '')) 0 1 emptyWorld)
              = appendUserMessage 12 (ascii ''15551234'') (ascii ''hi'') 0 Map.empty"
    using t[THEN conjunct1] c by (simp add: emptyWorld_def)
  have h2: "trace (conversationalFlow 12 (\<lambda>msgs. Response None) reliable (ascii ''15551234'') (ascii ''text'')
                    (Some (ascii '' hi '')) 0 1 emptyWorld)
              = [SendText (ascii ''15551234'') DEFAULT_REPLY True]"
    using t[THEN conjunct2, THEN conjunct2, THEN conjunct1] by (simp add: emptyWorld_def reliable_def)
  show ?thesis
    unfolding h1 h2 d by simp
qed


section \<open>The pattern of the poll command\<close>

lemma dquote_not_space: "\<not> isSpace dquote"
  by (simp add: isSpace_def dquote_def)

lemma quoted_wrap: "plain x \<Longrightarrow> quoted (wrap x @ r) = Some (x, r)"
proof -
  assume p: "plain x"
  have all: "\<And>c. c \<in> set x \<Longrightarrow> c \<noteq> dquote"
    using p by (auto simp: plain_def)
  have t: "takeWhile (\<lambda>c. c \<noteq> dquote) (x @ dquote # r) = x"
    using all by (simp add: takeWhile_append2)
  have d: "dropWhile (\<lambda>c. c \<noteq> dquote) (x @ dquote # r) = dquote # r"
    using all by (simp add: dropWhile_append2)
  show ?thesis
    using p t d by (simp add: quoted_def wrap_def plain_def)
qed

lemma ws_quoted_sep:
  assumes "list_all isSpace sep" "plain x"
  shows "ws_quoted (sep @ wrap x @ r) = Some (x, r)"
proof -
  have "dropWhile isSpace (sep @ wrap x @ r) = wrap x @ r"
    using assms(1) dquote_not_space by (induction sep) (auto simp: wrap_def)
  then show ?thesis
    using quoted_wrap[OF assms(2)] by (simp add: ws_quoted_def)
qed

lemma optional_groups_run:
  "list_all (\<lambda>(sep, x). list_all isSpace sep \<and> plain x) sos
     \<Longrightarrow> optional_groups n (quoted_run sos) = take n (map snd sos)"
proof (induction n arbitrary: sos)
  case 0
  then show ?case by simp
next
  case (Suc n)
  show ?case
  proof (cases sos)
    case Nil
    then show ?thesis
      by (simp add: ws_quoted_def quoted_def)
  next
    case (Cons a rest)
    obtain sep x where a: "a = (sep, x)"
      by (cases a)
    have "ws_quoted (sep @ wrap x @ quoted_run rest) = Some (x, quoted_run rest)"
      using Suc.prems Cons a by (intro ws_quoted_sep) auto
    moreover have "optional_groups n (quoted_run rest) = take n (map snd rest)"
      using Suc.prems Cons by (intro Suc.IH) auto
    ultimately show ?thesis
      using Cons a by simp
  qed
qed

lemma match_here_run:
  assumes "plain q" "list_all isSpace sep" "plain x"
      and "list_all (\<lambda>(sep, x). list_all isSpace sep \<and> plain x) sos"
  shows "match_here (wrap q @ quoted_run ((sep, x) # sos)) = Some (q, x # take 3 (map snd sos))"
  using quoted_wrap[OF assms(1)] ws_quoted_sep[OF assms(2,3)] optional_groups_run[OF assms(4)]
  by (simp add: match_here_def)

lemma poll_match_run:
  assumes "plain q" "list_all isSpace sep" "plain x"
      and "list_all (\<lambda>(sep, x). list_all isSpace sep \<and> plain x) sos"
  shows "poll_match (wrap q @ quoted_run ((sep, x) # sos)) = Some (q, x # take 3 (map snd sos))"
proof -
  have "wrap q @ quoted_run ((sep, x) # sos) = dquote # (q @ [dquote] @ quoted_run ((sep, x) # sos))"
    by (simp add: wrap_def)
  then show ?thesis
    using match_here_run[OF assms] by simp
qed

text \<open>A match needs four quotes, so a text with fewer has none.\<close>

lemma quoted_count: "quoted s = Some (g, r) \<Longrightarrow> 2 + quote_count r \<le> quote_count s"
proof -
  assume a: "quoted s = Some (g, r)"
  then obtain t where s: "s = dquote # t" and ne: "dropWhile (\<lambda>x. x \<noteq> dquote) t \<noteq> []"
    and r: "r = drop 1 (dropWhile (\<lambda>x. x \<noteq> dquote) t)"
    by (auto simp: quoted_def split: list.splits if_splits)
  have h: "hd (dropWhile (\<lambda>x. x \<noteq> dquote) t) = dquote"
    using hd_dropWhile[OF ne] by simp
  have "t = takeWhile (\<lambda>x. x \<noteq> dquote) t @ dropWhile (\<lambda>x. x \<noteq> dquote) t"
    by simp
  moreover have "dropWhile (\<lambda>x. x \<noteq> dquote) t = dquote # r"
    using ne h r by (cases "dropWhile (\<lambda>x. x \<noteq> dquote) t") auto
  ultimately have "t = takeWhile (\<lambda>x. x \<noteq> dquote) t @ dquote # r"
    by simp
  then have "quote_count t = quote_count (takeWhile (\<lambda>x. x \<noteq> dquote) t @ dquote # r)"
    by (rule arg_cong)
  also have "\<dots> = quote_count (takeWhile (\<lambda>x. x \<noteq> dquote) t) + 1 + quote_count r"
    by (simp add: quote_count_def)
  finally show ?thesis
    using s by (simp add: quote_count_def)
qed

lemma quote_count_dropWhile: "quote_count (dropWhile P s) \<le> quote_count s"
  unfolding quote_count_def by (induction s) auto

lemma match_here_count: "match_here s = Some m \<Longrightarrow> 4 \<le> quote_count s"
proof -
  assume "match_here s = Some m"
  then obtain q r1 o1 r2 where a: "quoted s = Some (q, r1)" and b: "ws_quoted r1 = Some (o1, r2)"
    by (auto simp: match_here_def split: option.splits)
  from b have "2 + quote_count r2 \<le> quote_count (dropWhile isSpace r1)"
    unfolding ws_quoted_def by (rule quoted_count)
  with quote_count_dropWhile[of isSpace r1] quoted_count[OF a] show ?thesis
    by simp
qed

lemma poll_match_count: "quote_count s < 4 \<Longrightarrow> poll_match s = None"
proof (induction s)
  case Nil
  then show ?case
    using match_here_count[of "[]"] by (cases "match_here []") (auto simp: quote_count_def)
next
  case (Cons c s)
  have "quote_count s < 4"
    using Cons.prems by (auto simp: quote_count_def split: if_splits)
  moreover have "match_here (c # s) = None"
    using match_here_count[of "c # s"] Cons.prems by (cases "match_here (c # s)") auto
  ultimately show ?case
    using Cons.IH by simp
qed

lemma quote_count_wrap: "plain x \<Longrightarrow> quote_count (wrap x) = 2"
  unfolding quote_count_def wrap_def plain_def by (auto simp: filter_empty_conv)

lemma poll_match_single: "plain q \<Longrightarrow> poll_match (wrap q) = None"
  using quote_count_wrap[of q] by (intro poll_match_count) simp

text \<open>A match has at most four options, whatever the text.\<close>

lemma optional_groups_length: "length (optional_groups n s) \<le> n"
  by (induction n arbitrary: s) (auto split: option.splits)

lemma match_here_length: "match_here s = Some (q, opts) \<Longrightarrow> length opts \<le> 4"
  using optional_groups_length[of 3]
  by (auto simp: match_here_def split: option.splits)

lemma poll_match_length: "poll_match s = Some (q, opts) \<Longrightarrow> length opts \<le> 4"
proof (induction s)
  case Nil
  then show ?case
    using match_here_length[of "[]" q opts] by simp
next
  case (Cons c s)
  then show ?case
    using match_here_length[of "c # s" q opts] by (cases "match_here (c # s)") auto
qed


section \<open>Poll creation\<close>

lemma POLLS_deliver [simp]: "POLLS (snd (deliver out dest body w)) = POLLS w"
  by (simp add: deliver_def)

lemma POLLS_ctx_sendText [simp]: "POLLS (snd (ctx_sendText ctx dest body w)) = POLLS w"
  by (simp add: ctx_sendText_def split: option.splits)

lemma tally_fresh:
  "tally \<lparr>question = q, options = opts, votes = map (\<lambda>_. []) opts, creator = c\<rparr> = map (\<lambda>x. (x, 0)) opts"
  unfolding tally_def by (auto simp: list_eq_iff_nth_eq nth_enumerate_eq)

lemma cmd_poll_created:
  assumes "poll_match (join (ascii '' '') argv) = Some (q, opts)" "2 \<le> length opts"
  shows "cmd_poll from argv ctx w =
           ctx_sendText ctx from (pollCreatedText (generatePollId (date_now ctx) (math_random ctx)) q opts)
             (w\<lparr>POLLS := (POLLS w)(generatePollId (date_now ctx) (math_random ctx) \<mapsto>
                  \<lparr>question = q, options = opts, votes = map (\<lambda>_. []) opts,
                   creator = normalizeBare from\<rparr>)\<rparr>)"
  using assms by (simp add: cmd_poll_def)

text \<open>
  Claim C10. When the arguments of \<open>/poll\<close> are a quoted question followed by five or more
  quoted options, the poll is created with the first four options only, each with an
  empty voter array and a zero tally, and the reply is the one of a created poll. No
  text makes the pattern give more than four options.
\<close>

theorem poll_keeps_first_four_options:
  assumes "plain q"
      and "list_all (\<lambda>(sep, x). list_all isSpace sep \<and> plain x) sos"
      and "5 \<le> length sos"
      and "join (ascii '' '') argv = wrap q @ quoted_run sos"
  shows "cmd_poll who argv ctx w =
           ctx_sendText ctx who
             (pollCreatedText (generatePollId (date_now ctx) (math_random ctx)) q (take 4 (map snd sos)))
             (w\<lparr>POLLS := (POLLS w)(generatePollId (date_now ctx) (math_random ctx) \<mapsto>
                  \<lparr>question = q, options = take 4 (map snd sos), votes = [[], [], [], []],
                   creator = normalizeBare who\<rparr>)\<rparr>)
       \<and> length (take 4 (map snd sos)) = 4
       \<and> tally \<lparr>question = q, options = take 4 (map snd sos), votes = [[], [], [], []],
                 creator = normalizeBare who\<rparr> = map (\<lambda>x. (x, 0)) (take 4 (map snd sos))
       \<and> (poll_match other = Some (q', opts) \<longrightarrow> length opts \<le> 4)"
proof -
  obtain sep x rest where sos: "sos = (sep, x) # rest"
    using assms(3) by (cases sos) auto
  have m: "poll_match (join (ascii '' '') argv) = Some (q, take 4 (map snd sos))"
    unfolding assms(4) sos using assms(1,2) poll_match_run[of q sep x rest]
    by (simp add: sos)
  have l: "length (take 4 (map snd sos)) = 4"
    using assms(3) by simp
  have v: "map (\<lambda>_. []) (take 4 (map snd sos)) = [[], [], [], []::jsstring list]"
    unfolding map_replicate_const l by (simp add: eval_nat_numeral)
  have c: "cmd_poll who argv ctx w =
           ctx_sendText ctx who
             (pollCreatedText (generatePollId (date_now ctx) (math_random ctx)) q (take 4 (map snd sos)))
             (w\<lparr>POLLS := (POLLS w)(generatePollId (date_now ctx) (math_random ctx) \<mapsto>
                  \<lparr>question = q, options = take 4 (map snd sos), votes = [[], [], [], []],
                   creator = normalizeBare who\<rparr>)\<rparr>)"
    using cmd_poll_created[OF m, of who ctx w] l unfolding v by simp
  have t: "tally \<lparr>question = q, options = take 4 (map snd sos), votes = [[], [], [], []],
                 creator = normalizeBare who\<rparr> = map (\<lambda>x. (x, 0)) (take 4 (map snd sos))"
    using tally_fresh[of q "take 4 (map snd sos)" "normalizeBare who"] unfolding v .
  have g: "poll_match other = Some (q', opts) \<longrightarrow> length opts \<le> 4"
    using poll_match_length[of other q' opts] by blast
  from c l t g show ?thesis
    by (intro conjI)
qed

theorem poll_keeps_first_four_options_witness:
  "join (ascii '' '') [wrap (ascii ''Q''), wrap (ascii ''A''), wrap (ascii ''B''), wrap (ascii ''C''), wrap (ascii ''D''), wrap (ascii ''E''), wrap (ascii ''F'')]
     = wrap (ascii ''Q'') @ quoted_run [((ascii '' ''), ascii ''A''), ((ascii '' ''), ascii ''B''), ((ascii '' ''), ascii ''C''), ((ascii '' ''), ascii ''D''), ((ascii '' ''), ascii ''E''), ((ascii '' ''), ascii ''F'')]
   \<and> fst (cmd_poll (ascii ''15551234'') [wrap (ascii ''Q''), wrap (ascii ''A''), wrap (ascii ''B''), wrap (ascii ''C''), wrap (ascii ''D''), wrap (ascii ''E''), wrap (ascii ''F'')]
             (exampleContext reliable) emptyWorld) = None
   \<and> POLLS (snd (cmd_poll (ascii ''15551234'') [wrap (ascii ''Q''), wrap (ascii ''A''), wrap (ascii ''B''), wrap (ascii ''C''), wrap (ascii ''D''), wrap (ascii ''E''), wrap (ascii ''F'')]
             (exampleContext reliable) emptyWorld))
       = [generatePollId 0 7 \<mapsto> \<lparr>question = ascii ''Q'', options = [ascii ''A'', ascii ''B'', ascii ''C'', ascii ''D''],
                                 votes = [[], [], [], []], creator = ascii ''15551234''\<rparr>]
   \<and> trace (snd (cmd_poll (ascii ''15551234'') [wrap (ascii ''Q''), wrap (ascii ''A''), wrap (ascii ''B''), wrap (ascii ''C''), wrap (ascii ''D''), wrap (ascii ''E''), wrap (ascii ''F'')]
             (exampleContext reliable) emptyWorld))
       = [SendText (ascii ''15551234'') (pollCreatedText (generatePollId 0 7) (ascii ''Q'') [ascii ''A'', ascii ''B'', ascii ''C'', ascii ''D'']) True]"
proof -
  have p: "plain (ascii ''Q'')"
    by (simp add: plain_def dquote_def)
  have a: "list_all (\<lambda>(sep, x). list_all isSpace sep \<and> plain x)
             [((ascii '' ''), ascii ''A''), ((ascii '' ''), ascii ''B''), ((ascii '' ''), ascii ''C''), ((ascii '' ''), ascii ''D''), ((ascii '' ''), ascii ''E''), ((ascii '' ''), ascii ''F'')]"
    by (simp add: plain_def dquote_def isSpace_def)
  have l: "5 \<le> length [((ascii '' ''), ascii ''A''), ((ascii '' ''), ascii ''B''), ((ascii '' ''), ascii ''C''), ((ascii '' ''), ascii ''D''), ((ascii '' ''), ascii ''E''), ((ascii '' ''), ascii ''F'')]"
    by simp
  have j: "join (ascii '' '') [wrap (ascii ''Q''), wrap (ascii ''A''), wrap (ascii ''B''), wrap (ascii ''C''), wrap (ascii ''D''), wrap (ascii ''E''), wrap (ascii ''F'')]
     = wrap (ascii ''Q'') @ quoted_run [((ascii '' ''), ascii ''A''), ((ascii '' ''), ascii ''B''), ((ascii '' ''), ascii ''C''), ((ascii '' ''), ascii ''D''), ((ascii '' ''), ascii ''E''), ((ascii '' ''), ascii ''F'')]"
    by simp
  have n: "normalizeBare (ascii ''15551234'') = ascii ''15551234''"
    by code_simp
  note t = poll_keeps_first_four_options[OF p a l j, where ctx = "exampleContext reliable"
      and w = emptyWorld and who = "(ascii ''15551234'')", THEN conjunct1]
  show ?thesis
    unfolding t using j n
    by (simp add: ctx_sendText_def deliver_def exampleContext_def reliable_def emptyWorld_def)
qed

section \<open>Votes\<close>

lemma count_remove1_same: "count_list (remove1 v vs) v = count_list vs v - 1"
  by (induction vs) auto

lemma count_remove1_other: "u \<noteq> v \<Longrightarrow> count_list (remove1 v vs) u = count_list vs u"
  by (induction vs) auto

lemma times_listed_Nil [simp]: "times_listed u [] = 0"
  by (simp add: times_listed_def)

lemma times_listed_Cons [simp]: "times_listed u (vs # vss) = count_list vs u + times_listed u vss"
  by (simp add: times_listed_def)

lemma times_listed_retract_same:
  "times_listed v vss \<le> 1 \<Longrightarrow> times_listed v (map (remove1 v) vss) = 0"
  by (induction vss) (auto simp: count_remove1_same)

lemma times_listed_retract_other:
  "u \<noteq> v \<Longrightarrow> times_listed u (map (remove1 v) vss) = times_listed u vss"
  by (induction vss) (auto simp: count_remove1_other)

lemma times_listed_push:
  "k < length vss
     \<Longrightarrow> times_listed u (vss[k := vss ! k @ [v]]) = times_listed u vss + (if u = v then 1 else 0)"
proof (induction vss arbitrary: k)
  case Nil
  then show ?case by simp
next
  case (Cons a vss)
  then show ?case by (cases k) auto
qed

lemma times_listed_empty: "times_listed u (map (\<lambda>_. []) opts) = 0"
  by (induction opts) auto

lemma listed_le_times: "length (filter (\<lambda>vs. v \<in> set vs) vss) \<le> times_listed v vss"
proof (induction vss)
  case Nil
  then show ?case by simp
next
  case (Cons a vss)
  have "v \<in> set a \<Longrightarrow> 1 \<le> count_list a v"
    by (induction a) auto
  then show ?case
    using Cons by auto
qed

lemma not_listed: "times_listed v vss = 0 \<Longrightarrow> j < length vss \<Longrightarrow> v \<notin> set (vss ! j)"
proof (induction vss arbitrary: j)
  case Nil
  then show ?case by simp
next
  case (Cons a vss)
  then show ?case
    by (cases j) (auto simp: count_list_0_iff)
qed

lemma retract_ok:
  assumes "\<forall>u. times_listed u vss \<le> 1"
  shows "times_listed u (map (remove1 v) vss) \<le> 1"
  using assms times_listed_retract_same[of v vss] times_listed_retract_other[of u v vss]
  by (cases "u = v") (auto simp: le_Suc_eq)

lemma retract_push_ok:
  assumes "\<forall>u. times_listed u vss \<le> 1" "k < length vss"
  shows "times_listed u ((map (remove1 v) vss)[k := map (remove1 v) vss ! k @ [v]]) \<le> 1"
proof (cases "u = v")
  case True
  then show ?thesis
    using assms times_listed_retract_same[of v vss] times_listed_push[of k "map (remove1 v) vss" v v]
    by simp
next
  case False
  then show ?thesis
    using assms times_listed_retract_other[of u v vss] times_listed_push[of k "map (remove1 v) vss" u v]
    by simp
qed

lemma POLLS_ctx_sendText_eq: "ctx_sendText ctx dest body w = (r, w1) \<Longrightarrow> POLLS w1 = POLLS w"
  using POLLS_ctx_sendText[of ctx dest body w] by simp

lemma polls_ok_cong: "POLLS w' = POLLS w \<Longrightarrow> polls_ok w' = polls_ok w"
  by (simp add: polls_ok_def)

lemma polls_ok_ctx_sendText [simp]: "polls_ok (snd (ctx_sendText ctx dest body w)) = polls_ok w"
  by (rule polls_ok_cong) simp

text \<open>The registry after the part of \<open>cmd_vote\<close> that follows the lookup of the poll.\<close>

lemma POLLS_vote_in_poll:
  "POLLS (snd (vote_in_poll pollId p idx who argv ctx w)) =
     (POLLS w)(pollId \<mapsto> p\<lparr>votes :=
        (if idx < 0 \<or> int (length (votes p)) \<le> idx then map (remove1 (normalizeBare who)) (votes p)
         else (map (remove1 (normalizeBare who)) (votes p))
                [nat idx := map (remove1 (normalizeBare who)) (votes p) ! nat idx @ [normalizeBare who]])\<rparr>)"
proof (cases "idx < 0 \<or> int (length (votes p)) \<le> idx")
  case True
  then show ?thesis
    by (simp add: vote_in_poll_def)
next
  case False
  define w2 where "w2 = w\<lparr>POLLS := (POLLS w)(pollId \<mapsto>
                     p\<lparr>votes := (map (remove1 (normalizeBare who)) (votes p))
                        [nat idx := map (remove1 (normalizeBare who)) (votes p) ! nat idx @ [normalizeBare who]]\<rparr>)\<rparr>"
  define msg where "msg = CHECK_MARK @ ascii '' Your vote for option '' @ toStringRadix 10 (nat idx) @ ascii '' recorded.''"
  obtain r w1 where e: "ctx_sendText ctx who msg w2 = (r, w1)"
    by (cases "ctx_sendText ctx who msg w2")
  have w1: "POLLS w1 = POLLS w2"
    using POLLS_ctx_sendText_eq[OF e] .
  have "POLLS (snd (vote_in_poll pollId p idx who argv ctx w)) = POLLS w2"
    using False e w1 unfolding vote_in_poll_def w2_def[symmetric] msg_def[symmetric]
    by (cases r) simp_all
  then show ?thesis
    using False by (simp add: w2_def)
qed

lemma cmd_poll_ok: "polls_ok w \<Longrightarrow> polls_ok (snd (cmd_poll who argv ctx w))"
  by (auto simp: polls_ok_def cmd_poll_def times_listed_empty split: option.splits)

lemma vote_in_poll_ok:
  assumes "polls_ok w" "POLLS w pollId = Some p"
  shows "polls_ok (snd (vote_in_poll pollId p idx who argv ctx w))"
proof -
  have p: "\<forall>u. times_listed u (votes p) \<le> 1"
    using assms by (auto simp: polls_ok_def)
  show ?thesis
  proof (cases "idx < 0 \<or> int (length (votes p)) \<le> idx")
    case True
    then show ?thesis
      using assms(1) retract_ok[OF p] by (auto simp: polls_ok_def POLLS_vote_in_poll)
  next
    case False
    then have "nat idx < length (votes p)"
      by auto
    from retract_push_ok[OF p this] False assms(1) show ?thesis
      by (auto simp: polls_ok_def POLLS_vote_in_poll)
  qed
qed

lemma cmd_vote_ok: "polls_ok w \<Longrightarrow> polls_ok (snd (cmd_vote who argv ctx w))"
  unfolding cmd_vote_def
  by (auto split: list.splits option.splits intro: vote_in_poll_ok)

lemma run_poll_calls_ok: "polls_ok w \<Longrightarrow> polls_ok (run_poll_calls calls w)"
proof (induction calls arbitrary: w)
  case Nil
  then show ?case by simp
next
  case (Cons c cs)
  have "polls_ok (apply_poll_call c w)"
    using Cons.prems by (cases c) (auto intro: cmd_poll_ok cmd_vote_ok)
  then show ?case
    using Cons.IH by simp
qed

text \<open>
  Claim C5. After any sequence of calls of the poll and vote handlers, by any senders
  and whether or not the votes were accepted, starting from an empty registry: every
  voter is in the voter array of at most one option of every poll. A further vote of a
  sender for an option position of a poll of the registry leaves that sender in the
  voter array of that position and of no other.
\<close>

theorem one_vote_per_voter:
  assumes "POLLS w = Map.empty"
      and "POLLS (run_poll_calls calls w) pollId = Some p"
  shows "length (filter (\<lambda>vs. voter \<in> set vs) (votes p)) \<le> 1
       \<and> (pollId \<noteq> [] \<and> parseInt10 a = Some idx \<and> 0 \<le> idx \<and> idx < int (length (votes p)) \<longrightarrow>
            (\<exists>p'. POLLS (snd (cmd_vote who [pollId, a] ctx (run_poll_calls calls w))) pollId = Some p'
                 \<and> length (votes p') = length (votes p)
                 \<and> (\<forall>j < length (votes p'). (normalizeBare who \<in> set (votes p' ! j)) = (j = nat idx))))"
proof -
  define w' where "w' = run_poll_calls calls w"
  have "polls_ok w"
    using assms(1) by (simp add: polls_ok_def)
  then have "polls_ok w'"
    unfolding w'_def by (rule run_poll_calls_ok)
  then have ok: "\<forall>u. times_listed u (votes p) \<le> 1"
    using assms(2) by (auto simp: polls_ok_def w'_def)
  have first: "length (filter (\<lambda>vs. voter \<in> set vs) (votes p)) \<le> 1"
    using ok listed_le_times[of voter "votes p"] by (meson le_trans)
  have second: "\<exists>p'. POLLS (snd (cmd_vote who [pollId, a] ctx w')) pollId = Some p'
                 \<and> length (votes p') = length (votes p)
                 \<and> (\<forall>j < length (votes p'). (normalizeBare who \<in> set (votes p' ! j)) = (j = nat idx))"
    if h: "pollId \<noteq> []" "parseInt10 a = Some idx" "0 \<le> idx" "idx < int (length (votes p))"
  proof -
    define v where "v = normalizeBare who"
    define retracted where "retracted = map (remove1 v) (votes p)"
    define p' where "p' = p\<lparr>votes := retracted[nat idx := retracted ! nat idx @ [v]]\<rparr>"
    have k: "nat idx < length retracted"
      using h by (simp add: retracted_def)
    have c: "cmd_vote who [pollId, a] ctx w' = vote_in_poll pollId p idx who [pollId, a] ctx w'"
      using h assms(2) by (simp add: cmd_vote_def w'_def)
    have s: "POLLS (snd (cmd_vote who [pollId, a] ctx w')) pollId = Some p'"
      unfolding c POLLS_vote_in_poll using h by (simp add: p'_def retracted_def v_def)
    have z: "times_listed v retracted = 0"
      unfolding retracted_def using ok by (intro times_listed_retract_same) simp
    have "(v \<in> set (votes p' ! j)) = (j = nat idx)" if "j < length (votes p')" for j
    proof (cases "j = nat idx")
      case True
      then show ?thesis
        using k by (simp add: p'_def)
    next
      case False
      have "j < length retracted"
        using that by (simp add: p'_def)
      from not_listed[OF z this] False show ?thesis
        by (simp add: p'_def)
    qed
    then show ?thesis
      using s unfolding v_def by (intro exI[where x = p']) (simp add: p'_def retracted_def)
  qed
  show ?thesis
    using first second unfolding w'_def by blast
qed

theorem one_vote_per_voter_witness:
  "POLLS emptyWorld = Map.empty
   \<and> POLLS (run_poll_calls [examplePoll, exampleVote (ascii ''0''), exampleVote (ascii ''1'')] emptyWorld) (ascii ''poll_0_7'')
        = Some \<lparr>question = ascii ''Q'', options = [ascii ''A'', ascii ''B''], votes = [[], [ascii ''15551234'']], creator = ascii ''15551234''\<rparr>
   \<and> length (filter (\<lambda>vs. (ascii ''15551234'') \<in> set vs) [[], [ascii ''15551234'']]) \<le> 1
   \<and> parseInt10 (ascii ''0'') = Some 0
   \<and> (\<exists>p'. POLLS (snd (cmd_vote (ascii ''15551234'') [ascii ''poll_0_7'', ascii ''0''] (exampleContext reliable)
                         (run_poll_calls [examplePoll, exampleVote (ascii ''0''), exampleVote (ascii ''1'')] emptyWorld))) (ascii ''poll_0_7'')
               = Some p'
            \<and> length (votes p') = 2
            \<and> (\<forall>j < length (votes p'). (normalizeBare (ascii ''15551234'') \<in> set (votes p' ! j)) = (j = 0)))"
proof -
  have e0: "POLLS emptyWorld = Map.empty"
    by (simp add: emptyWorld_def)
  have e1: "POLLS (run_poll_calls [examplePoll, exampleVote (ascii ''0''), exampleVote (ascii ''1'')] emptyWorld) (ascii ''poll_0_7'')
        = Some \<lparr>question = ascii ''Q'', options = [ascii ''A'', ascii ''B''], votes = [[], [ascii ''15551234'']], creator = ascii ''15551234''\<rparr>"
    by code_simp
  have e2: "parseInt10 (ascii ''0'') = Some 0"
    by code_simp
  note t = one_vote_per_voter[OF e0 e1, where voter = "(ascii ''15551234'')" and a = "(ascii ''0'')" and idx = 0
      and who = "(ascii ''15551234'')" and ctx = "exampleContext reliable"]
  have first: "length (filter (\<lambda>vs. (ascii ''15551234'') \<in> set vs) [[], [ascii ''15551234'']]) \<le> 1"
    using t[THEN conjunct1] by simp
  have second: "\<exists>p'. POLLS (snd (cmd_vote (ascii ''15551234'') [ascii ''poll_0_7'', ascii ''0''] (exampleContext reliable)
                         (run_poll_calls [examplePoll, exampleVote (ascii ''0''), exampleVote (ascii ''1'')] emptyWorld))) (ascii ''poll_0_7'')
               = Some p'
            \<and> length (votes p') = 2
            \<and> (\<forall>j < length (votes p'). (normalizeBare (ascii ''15551234'') \<in> set (votes p' ! j)) = (j = 0))"
    using t[THEN conjunct2] e2 by (simp add: numeral_2_eq_2)
  from e0 e1 first e2 second show ?thesis
    by (intro conjI)
qed

text \<open>
  Claim C2 fails on the code. The sender 15551234 creates the poll \<open>poll_0_7\<close> and votes
  for option 0; a second vote, for the position 5 that the poll does not have, is
  answered with "Invalid option index." and has removed the sender's vote for option 0.
\<close>

theorem invalid_vote_retracts_earlier_vote:
  "map_option votes (POLLS (run_poll_calls [examplePoll, exampleVote (ascii ''0'')] emptyWorld) (ascii ''poll_0_7''))
     = Some [[ascii ''15551234''], []]
   \<and> map_option votes (POLLS (run_poll_calls [examplePoll, exampleVote (ascii ''0''), exampleVote (ascii ''5'')] emptyWorld) (ascii ''poll_0_7''))
     = Some [[], []]
   \<and> last (trace (run_poll_calls [examplePoll, exampleVote (ascii ''0''), exampleVote (ascii ''5'')] emptyWorld))
     = SendText (ascii ''15551234'') (ascii ''Invalid option index.'') True"
  by code_simp


section \<open>The identifier of a poll\<close>

text \<open>
  \<open>n.toString(b)\<close> writes digits and lower-case letters only, and two numbers have the
  same text only if they are equal.
\<close>

lemma digitChar_unat: "d < 36 \<Longrightarrow> unat (digitChar d) = (if d < 10 then 48 + d else 87 + d)"
  by (simp add: digitChar_def unat_of_nat)

lemma digitChar_inj:
  assumes "d < 36" "e < 36" "digitChar d = digitChar e"
  shows "d = e"
proof -
  have "unat (digitChar d) = unat (digitChar e)"
    using assms(3) by simp
  then show ?thesis
    using assms(1,2) by (simp add: digitChar_unat split: if_splits)
qed

lemma digitChar_not_underscore:
  assumes "d < 36"
  shows "digitChar d \<noteq> 0x5F"
proof
  assume "digitChar d = 0x5F"
  then have "unat (digitChar d) = unat (0x5F :: 16 word)"
    by simp
  then show False
    using assms by (simp add: digitChar_unat split: if_splits)
qed

lemma toStringRadix_small: "n < b \<Longrightarrow> toStringRadix b n = [digitChar n]"
  by (subst toStringRadix.simps) simp

lemma toStringRadix_large:
  "2 \<le> b \<Longrightarrow> b \<le> n \<Longrightarrow> toStringRadix b n = toStringRadix b (n div b) @ [digitChar (n mod b)]"
  by (subst toStringRadix.simps) simp

lemma toStringRadix_nonempty: "toStringRadix b n \<noteq> []"
  by (subst toStringRadix.simps) simp

lemma toStringRadix_no_underscore:
  assumes "2 \<le> b" "b \<le> 36"
  shows "0x5F \<notin> set (toStringRadix b n)"
proof (induction n rule: less_induct)
  case (less n)
  show ?case
  proof (cases "n < b")
    case True
    then show ?thesis
      using assms digitChar_not_underscore[of n] by (simp add: toStringRadix_small)
  next
    case False
    have "n div b < n"
      using False assms(1) by (intro div_less_dividend) auto
    moreover have "n mod b < 36"
      using assms by (intro less_le_trans[OF mod_less_divisor]) auto
    ultimately show ?thesis
      using False assms(1) less.IH[of "n div b"] digitChar_not_underscore[of "n mod b"]
      by (simp add: toStringRadix_large)
  qed
qed

lemma toStringRadix_inj:
  assumes "2 \<le> b" "b \<le> 36"
  shows "toStringRadix b n = toStringRadix b m \<Longrightarrow> n = m"
proof (induction n arbitrary: m rule: less_induct)
  case (less n)
  show ?case
  proof (cases "n < b")
    case n: True
    show ?thesis
    proof (cases "m < b")
      case True
      then have "digitChar n = digitChar m"
        using n less.prems by (simp add: toStringRadix_small)
      then show ?thesis
        using n True assms(2) by (intro digitChar_inj) auto
    next
      case False
      then have "length (toStringRadix b n) = length (toStringRadix b (m div b) @ [digitChar (m mod b)])"
        using less.prems assms(1) by (simp add: toStringRadix_large)
      then show ?thesis
        using n toStringRadix_nonempty[of b "m div b"] by (simp add: toStringRadix_small)
    qed
  next
    case n: False
    show ?thesis
    proof (cases "m < b")
      case True
      have "length (toStringRadix b (n div b) @ [digitChar (n mod b)]) = length (toStringRadix b m)"
        using n less.prems assms(1) by (simp add: toStringRadix_large)
      then show ?thesis
        using True toStringRadix_nonempty[of b "n div b"] by (simp add: toStringRadix_small)
    next
      case False
      have e: "toStringRadix b (n div b) = toStringRadix b (m div b)" "digitChar (n mod b) = digitChar (m mod b)"
        using n False less.prems assms(1) by (simp_all add: toStringRadix_large)
      have "n div b < n"
        using n assms(1) by (intro div_less_dividend) auto
      then have d: "n div b = m div b"
        using e(1) by (rule less.IH)
      have "n mod b < 36" "m mod b < 36"
        using assms by (auto intro: less_le_trans[OF mod_less_divisor])
      then have "n mod b = m mod b"
        using e(2) by (rule digitChar_inj)
      with d show ?thesis
        by (metis div_mult_mod_eq)
    qed
  qed
qed

lemma takeWhile_separator: "x \<notin> set a \<Longrightarrow> takeWhile (\<lambda>y. y \<noteq> x) (a @ x # b) = a"
  by (induction a) auto

lemma separator_splits:
  assumes "x \<notin> set a" "x \<notin> set a'" "a @ x # b = a' @ x # b'"
  shows "a = a' \<and> b = b'"
proof -
  have "takeWhile (\<lambda>y. y \<noteq> x) (a @ x # b) = a" "takeWhile (\<lambda>y. y \<noteq> x) (a' @ x # b') = a'"
    using assms(1,2) by (simp_all add: takeWhile_separator)
  then have "a = a'"
    using assms(3) by simp
  then show ?thesis
    using assms(3) by simp
qed

lemma generatePollId_inj: "(generatePollId n r = generatePollId n' r') = (n = n' \<and> r = r')"
proof
  assume "generatePollId n r = generatePollId n' r'"
  then have "toStringRadix 36 n @ 0x5F # toStringRadix 10 r = toStringRadix 36 n' @ 0x5F # toStringRadix 10 r'"
    by (simp add: generatePollId_def)
  from separator_splits[OF _ _ this]
  have "toStringRadix 36 n = toStringRadix 36 n'" "toStringRadix 10 r = toStringRadix 10 r'"
    by (simp_all add: toStringRadix_no_underscore)
  then show "n = n' \<and> r = r'"
    using toStringRadix_inj[of 36 n n'] toStringRadix_inj[of 10 r r'] by simp
next
  assume "n = n' \<and> r = r'"
  then show "generatePollId n r = generatePollId n' r'"
    by simp
qed

text \<open>
  The keys of the registry after a sequence of calls: those it had, and the identifiers
  of the polls the sequence stored. A vote adds no key.
\<close>

lemma dom_vote_in_poll:
  "POLLS w pollId = Some p \<Longrightarrow> dom (POLLS (snd (vote_in_poll pollId p idx who argv ctx w))) = dom (POLLS w)"
  by (auto simp: POLLS_vote_in_poll)

lemma dom_cmd_vote: "dom (POLLS (snd (cmd_vote who argv ctx w))) = dom (POLLS w)"
  unfolding cmd_vote_def
  by (simp add: dom_vote_in_poll split: list.splits option.splits)

lemma dom_run_poll_calls:
  "dom (POLLS (run_poll_calls calls w))
     = dom (POLLS w) \<union> (\<lambda>(n, r). generatePollId n r) ` set (creations calls)"
proof (induction calls arbitrary: w)
  case Nil
  then show ?case by simp
next
  case (Cons c cs)
  show ?case
  proof (cases c)
    case (PollCall who argv ctx)
    then show ?thesis
      using Cons.IH[of "snd (cmd_poll who argv ctx w)"]
      by (auto simp: cmd_poll_def split: option.splits)
  next
    case (VoteCall who argv ctx)
    then show ?thesis
      using Cons.IH[of "snd (cmd_vote who argv ctx w)"] by (simp add: dom_cmd_vote)
  qed
qed

lemma identifier_in_use:
  assumes "POLLS w = Map.empty"
  shows "(POLLS (run_poll_calls calls w) (generatePollId n r) \<noteq> None) = ((n, r) \<in> set (creations calls))"
proof -
  have "(POLLS (run_poll_calls calls w) (generatePollId n r) \<noteq> None)
          = (generatePollId n r \<in> dom (POLLS (run_poll_calls calls w)))"
    by (simp add: dom_def)
  also have "\<dots> = (generatePollId n r \<in> (\<lambda>(n, r). generatePollId n r) ` set (creations calls))"
    unfolding dom_run_poll_calls using assms by simp
  also have "\<dots> = ((n, r) \<in> set (creations calls))"
  proof
    assume "generatePollId n r \<in> (\<lambda>(n, r). generatePollId n r) ` set (creations calls)"
    then obtain n' r' where "(n', r') \<in> set (creations calls)" "generatePollId n r = generatePollId n' r'"
      by auto
    then show "(n, r) \<in> set (creations calls)"
      by (simp add: generatePollId_inj)
  next
    assume "(n, r) \<in> set (creations calls)"
    then show "generatePollId n r \<in> (\<lambda>(n, r). generatePollId n r) ` set (creations calls)"
      by (intro image_eqI[where x = "(n, r)"]) simp_all
  qed
  finally show ?thesis .
qed

text \<open>
  Claim C7, as amended. For a question \<open>q\<close> and options \<open>a\<close>, \<open>b\<close> written between quotes:
  the arguments \<open>"q"\<close> alone get the usage reply and the arguments \<open>"q" "a"\<close> get the reply
  that a poll needs two options, and neither changes the registry (a reply changes no
  poll); the arguments \<open>"q" "a" "b"\<close> store the poll with the options \<open>[a, b]\<close>, an empty
  voter array for each, and the tally \<open>[(a, 0), (b, 0)]\<close>, under the identifier computed
  from the clock and the random draw, whatever the registry holds under it. Two
  identifiers are equal exactly when they come from the same clock reading and the same
  draw. So, in a registry that calls of the poll and vote handlers have built from an
  empty one, the identifier of a new poll is in use exactly when one of the polls stored
  before was made with the same clock reading and the same draw.
\<close>

theorem poll_creation:
  assumes "plain q" "plain a" "plain b" "list_all isSpace s1" "list_all isSpace s2"
  shows "(join (ascii '' '') argv = wrap q \<longrightarrow> cmd_poll who argv ctx w = ctx_sendText ctx who POLL_USAGE w)
       \<and> (join (ascii '' '') argv = wrap q @ s1 @ wrap a \<longrightarrow>
            cmd_poll who argv ctx w = ctx_sendText ctx who (ascii ''Create a poll with at least 2 options.'') w)
       \<and> (join (ascii '' '') argv = wrap q @ s1 @ wrap a @ s2 @ wrap b \<longrightarrow>
            cmd_poll who argv ctx w =
              ctx_sendText ctx who (pollCreatedText (generatePollId (date_now ctx) (math_random ctx)) q [a, b])
                (w\<lparr>POLLS := (POLLS w)(generatePollId (date_now ctx) (math_random ctx) \<mapsto>
                    \<lparr>question = q, options = [a, b], votes = [[], []], creator = normalizeBare who\<rparr>)\<rparr>))
       \<and> tally \<lparr>question = q, options = [a, b], votes = [[], []], creator = normalizeBare who\<rparr> = [(a, 0), (b, 0)]
       \<and> POLLS (snd (ctx_sendText ctx dest body w)) = POLLS w
       \<and> (generatePollId n r = generatePollId n' r') = (n = n' \<and> r = r')
       \<and> (POLLS w0 = Map.empty \<longrightarrow>
            (POLLS (run_poll_calls calls w0) (generatePollId n r) \<noteq> None) = ((n, r) \<in> set (creations calls)))"
proof -
  have m1: "poll_match (wrap q @ quoted_run [(s1, a)]) = Some (q, [a])"
    using assms poll_match_run[of q s1 a "[]"] by simp
  have m2: "poll_match (wrap q @ quoted_run [(s1, a), (s2, b)]) = Some (q, [a, b])"
    using assms poll_match_run[of q s1 a "[(s2, b)]"] by simp
  have t: "tally \<lparr>question = q, options = [a, b], votes = [[], []], creator = normalizeBare who\<rparr> = [(a, 0), (b, 0)]"
    using tally_fresh[of q "[a, b]" "normalizeBare who"] by simp
  have first: "(join (ascii '' '') argv = wrap q \<longrightarrow> cmd_poll who argv ctx w = ctx_sendText ctx who POLL_USAGE w)
       \<and> (join (ascii '' '') argv = wrap q @ s1 @ wrap a \<longrightarrow>
            cmd_poll who argv ctx w = ctx_sendText ctx who (ascii ''Create a poll with at least 2 options.'') w)
       \<and> (join (ascii '' '') argv = wrap q @ s1 @ wrap a @ s2 @ wrap b \<longrightarrow>
            cmd_poll who argv ctx w =
              ctx_sendText ctx who (pollCreatedText (generatePollId (date_now ctx) (math_random ctx)) q [a, b])
                (w\<lparr>POLLS := (POLLS w)(generatePollId (date_now ctx) (math_random ctx) \<mapsto>
                    \<lparr>question = q, options = [a, b], votes = [[], []], creator = normalizeBare who\<rparr>)\<rparr>))"
    using poll_match_single[OF assms(1)] m1 m2
    by (simp add: cmd_poll_def)
  have u: "POLLS w0 = Map.empty \<longrightarrow>
            (POLLS (run_poll_calls calls w0) (generatePollId n r) \<noteq> None) = ((n, r) \<in> set (creations calls))"
    using identifier_in_use[of w0 calls n r] by blast
  have s: "POLLS (snd (ctx_sendText ctx dest body w)) = POLLS w"
    by simp
  from first t s generatePollId_inj[of n r n' r'] u show ?thesis
    by (intro conjI) simp_all
qed

theorem poll_creation_witness:
  "plain (ascii ''Q'') \<and> plain (ascii ''A'') \<and> plain (ascii ''B'') \<and> list_all isSpace (ascii '' '')
   \<and> fst (cmd_poll (ascii ''15551234'') [wrap (ascii ''Q'')] (exampleContext reliable) emptyWorld) = None
   \<and> trace (snd (cmd_poll (ascii ''15551234'') [wrap (ascii ''Q'')] (exampleContext reliable) emptyWorld))
       = [SendText (ascii ''15551234'') POLL_USAGE True]
   \<and> POLLS (snd (cmd_poll (ascii ''15551234'') [wrap (ascii ''Q'')] (exampleContext reliable) emptyWorld)) = Map.empty
   \<and> fst (cmd_poll (ascii ''15551234'') [wrap (ascii ''Q''), wrap (ascii ''A'')] (exampleContext reliable) emptyWorld) = None
   \<and> trace (snd (cmd_poll (ascii ''15551234'') [wrap (ascii ''Q''), wrap (ascii ''A'')] (exampleContext reliable) emptyWorld))
       = [SendText (ascii ''15551234'') (ascii ''Create a poll with at least 2 options.'') True]
   \<and> POLLS (snd (cmd_poll (ascii ''15551234'') [wrap (ascii ''Q''), wrap (ascii ''A'')] (exampleContext reliable) emptyWorld)) = Map.empty
   \<and> POLLS (snd (cmd_poll (ascii ''15551234'') [wrap (ascii ''Q''), wrap (ascii ''A''), wrap (ascii ''B'')] (exampleContext reliable) emptyWorld))
       = [generatePollId 0 7 \<mapsto> \<lparr>question = ascii ''Q'', options = [ascii ''A'', ascii ''B''], votes = [[], []],
                                 creator = ascii ''15551234''\<rparr>]
   \<and> tally \<lparr>question = ascii ''Q'', options = [ascii ''A'', ascii ''B''], votes = [[], []], creator = ascii ''15551234''\<rparr>
       = [(ascii ''A'', 0), (ascii ''B'', 0)]
   \<and> generatePollId 0 7 = ascii ''poll_0_7''
   \<and> generatePollId 0 7 \<noteq> generatePollId 0 8
   \<and> generatePollId 0 7 \<noteq> generatePollId 36 7
   \<and> POLLS emptyWorld = Map.empty
   \<and> POLLS (run_poll_calls [examplePoll] emptyWorld) (generatePollId 0 7) \<noteq> None
   \<and> POLLS (run_poll_calls [examplePoll] emptyWorld) (generatePollId 1 7) = None"
proof -
  have p: "plain (ascii ''Q'')" "plain (ascii ''A'')" "plain (ascii ''B'')"
    by (simp_all add: plain_def dquote_def)
  have s: "list_all isSpace (ascii '' '')"
    by (simp add: isSpace_def)
  have n: "normalizeBare (ascii ''15551234'') = ascii ''15551234''"
    by code_simp
  have g: "generatePollId 0 7 = ascii ''poll_0_7''"
    by code_simp
  have e: "POLLS emptyWorld = Map.empty"
    by (simp add: emptyWorld_def)
  have c: "creations [examplePoll] = [(0, 7)]"
    by code_simp
  note t0 = poll_creation[OF p s s, where argv = "[wrap (ascii ''Q'')]" and ctx = "exampleContext reliable"
      and w = emptyWorld and who = "ascii ''15551234''"]
  note t1 = poll_creation[OF p s s, where argv = "[wrap (ascii ''Q''), wrap (ascii ''A'')]" and ctx = "exampleContext reliable"
      and w = emptyWorld and who = "ascii ''15551234''"]
  note t2 = poll_creation[OF p s s, where argv = "[wrap (ascii ''Q''), wrap (ascii ''A''), wrap (ascii ''B'')]"
      and ctx = "exampleContext reliable" and w = emptyWorld and who = "ascii ''15551234''"]
  note t3 = poll_creation[OF p s s, where w0 = emptyWorld and calls = "[examplePoll]" and n = 0 and r = 7]
  note t4 = poll_creation[OF p s s, where w0 = emptyWorld and calls = "[examplePoll]" and n = 1 and r = 7]
  note t5 = poll_creation[OF p s s, where n = 0 and r = 7 and n' = 0 and r' = 8]
  note t6 = poll_creation[OF p s s, where n = 0 and r = 7 and n' = 36 and r' = 7]
  have zero: "cmd_poll (ascii ''15551234'') [wrap (ascii ''Q'')] (exampleContext reliable) emptyWorld
               = ctx_sendText (exampleContext reliable) (ascii ''15551234'') POLL_USAGE emptyWorld"
    using t0 by simp
  have one: "cmd_poll (ascii ''15551234'') [wrap (ascii ''Q''), wrap (ascii ''A'')] (exampleContext reliable) emptyWorld
               = ctx_sendText (exampleContext reliable) (ascii ''15551234'')
                   (ascii ''Create a poll with at least 2 options.'') emptyWorld"
    using t1 by simp
  have two: "cmd_poll (ascii ''15551234'') [wrap (ascii ''Q''), wrap (ascii ''A''), wrap (ascii ''B'')] (exampleContext reliable) emptyWorld
               = ctx_sendText (exampleContext reliable) (ascii ''15551234'')
                   (pollCreatedText (generatePollId 0 7) (ascii ''Q'') [ascii ''A'', ascii ''B''])
                   (emptyWorld\<lparr>POLLS := (POLLS emptyWorld)(generatePollId 0 7 \<mapsto>
                      \<lparr>question = ascii ''Q'', options = [ascii ''A'', ascii ''B''], votes = [[], []],
                       creator = ascii ''15551234''\<rparr>)\<rparr>)"
    using t2 n by (simp add: exampleContext_def)
  have tl: "tally \<lparr>question = ascii ''Q'', options = [ascii ''A'', ascii ''B''], votes = [[], []], creator = ascii ''15551234''\<rparr>
       = [(ascii ''A'', 0), (ascii ''B'', 0)]"
    using t2 n by simp
  have i1: "generatePollId 0 7 \<noteq> generatePollId 0 8"
    using t5 by simp
  have i2: "generatePollId 0 7 \<noteq> generatePollId 36 7"
    using t6 by simp
  have u1: "POLLS (run_poll_calls [examplePoll] emptyWorld) (generatePollId 0 7) \<noteq> None"
    using t3 e c by simp
  have u2: "POLLS (run_poll_calls [examplePoll] emptyWorld) (generatePollId 1 7) = None"
    using t4 e c by simp
  have r0: "fst (cmd_poll (ascii ''15551234'') [wrap (ascii ''Q'')] (exampleContext reliable) emptyWorld) = None
   \<and> trace (snd (cmd_poll (ascii ''15551234'') [wrap (ascii ''Q'')] (exampleContext reliable) emptyWorld))
       = [SendText (ascii ''15551234'') POLL_USAGE True]
   \<and> POLLS (snd (cmd_poll (ascii ''15551234'') [wrap (ascii ''Q'')] (exampleContext reliable) emptyWorld)) = Map.empty"
    unfolding zero by (simp add: ctx_sendText_def deliver_def exampleContext_def reliable_def emptyWorld_def)
  have r1: "fst (cmd_poll (ascii ''15551234'') [wrap (ascii ''Q''), wrap (ascii ''A'')] (exampleContext reliable) emptyWorld) = None
   \<and> trace (snd (cmd_poll (ascii ''15551234'') [wrap (ascii ''Q''), wrap (ascii ''A'')] (exampleContext reliable) emptyWorld))
       = [SendText (ascii ''15551234'') (ascii ''Create a poll with at least 2 options.'') True]
   \<and> POLLS (snd (cmd_poll (ascii ''15551234'') [wrap (ascii ''Q''), wrap (ascii ''A'')] (exampleContext reliable) emptyWorld)) = Map.empty"
    unfolding one by (simp add: ctx_sendText_def deliver_def exampleContext_def reliable_def emptyWorld_def)
  have r2: "POLLS (snd (cmd_poll (ascii ''15551234'') [wrap (ascii ''Q''), wrap (ascii ''A''), wrap (ascii ''B'')] (exampleContext reliable) emptyWorld))
       = [generatePollId 0 7 \<mapsto> \<lparr>question = ascii ''Q'', options = [ascii ''A'', ascii ''B''], votes = [[], []],
                                 creator = ascii ''15551234''\<rparr>]"
    unfolding two by (simp add: ctx_sendText_def deliver_def exampleContext_def reliable_def emptyWorld_def)
  from p s r0 r1 r2 tl g i1 i2 e u1 u2 show ?thesis
    by (intro conjI) simp_all
qed

text \<open>
  Claim C7 as stated fails where it says the identifier is fresh: a second poll created
  at the same clock reading with the same random draw gets the identifier of the first
  and replaces it.
\<close>

theorem poll_identifier_can_repeat:
  "map_option question (POLLS (run_poll_calls [examplePoll] emptyWorld) (generatePollId 0 7)) = Some (ascii ''Q'')
   \<and> fst (cmd_poll (ascii ''15559999'') [wrap (ascii ''R''), wrap (ascii ''C''), wrap (ascii ''D'')] (exampleContext reliable)
             (run_poll_calls [examplePoll] emptyWorld)) = None
   \<and> map_option question
        (POLLS (snd (cmd_poll (ascii ''15559999'') [wrap (ascii ''R''), wrap (ascii ''C''), wrap (ascii ''D'')] (exampleContext reliable)
                       (run_poll_calls [examplePoll] emptyWorld))) (generatePollId 0 7)) = Some (ascii ''R'')"
  by code_simp

section \<open>The router\<close>

lemma split_ws_nonempty: "split_ws s \<noteq> []"
  by (subst split_ws.simps) (simp add: Let_def)

text \<open>A text is a command exactly when, trimmed, it starts with the sigil.\<close>

lemma parseCommand_None:
  "(parseCommand lower body = None) = (\<not> startsWith (trim body) (ascii ''/''))"
proof (cases "body = []")
  case True
  then show ?thesis
    by (simp add: parseCommand_def startsWith_def trim_def)
next
  case False
  then show ?thesis
    using split_ws_nonempty[of "drop 1 (trim body)"]
    by (cases "split_ws (drop 1 (trim body))") (simp_all add: parseCommand_def)
qed

text \<open>
  Claim C1, as amended. For a text that is a command (trimmed of the white space of
  \<open>trim\<close>, it starts with the sigil) and contains a prohibited term, with a context that
  has \<open>sendText\<close>: \<open>handleCommand\<close> makes one call of the sender, the profanity warning to
  the sender of the message, calls no handler and changes nothing else; it returns
  \<open>handled = true\<close> when the send returns, and rejects with the send's exception
  otherwise. A text that is not a command is not screened: \<open>handleCommand\<close> returns
  \<open>handled = false\<close> and does nothing. This holds whatever the lower-casing of the
  runtime is.
\<close>

theorem profanity_guard_on_commands:
  assumes "containsProfanity lower body" "startsWith (trim body) (ascii ''/'')" "sendText ctx = Some out"
  shows "handleCommand lower others who body ctx w =
          ((case out (trace w) who PROFANITY_WARNING of None \<Rightarrow> Returned True | Some e \<Rightarrow> Thrown e),
           w\<lparr>trace := trace w @ [SendText who PROFANITY_WARNING (out (trace w) who PROFANITY_WARNING = None)]\<rparr>)
       \<and> (\<not> startsWith (trim other) (ascii ''/'') \<longrightarrow>
            handleCommand lower others who other ctx w = (Returned False, w))"
proof -
  obtain parsed where p: "parseCommand lower body = Some parsed"
    using assms(2) parseCommand_None[of lower body] by (cases "parseCommand lower body") auto
  have a: "handleCommand lower others who body ctx w =
          ((case out (trace w) who PROFANITY_WARNING of None \<Rightarrow> Returned True | Some e \<Rightarrow> Thrown e),
           w\<lparr>trace := trace w @ [SendText who PROFANITY_WARNING (out (trace w) who PROFANITY_WARNING = None)]\<rparr>)"
    using assms(1,3) p by (simp add: handleCommand_def ctx_sendText_def deliver_def split: option.splits)
  have b: "\<not> startsWith (trim other) (ascii ''/'') \<longrightarrow>
            handleCommand lower others who other ctx w = (Returned False, w)"
  proof
    assume "\<not> startsWith (trim other) (ascii ''/'')"
    then have "parseCommand lower other = None"
      using parseCommand_None[of lower other] by blast
    then show "handleCommand lower others who other ctx w = (Returned False, w)"
      by (simp add: handleCommand_def)
  qed
  from a b show ?thesis
    by (intro conjI)
qed

text \<open>
  The example: the command \<open>/poll BadWord1\<close> after a no-break space (U+00A0), which \<open>trim\<close>
  removes, and the text \<open>hello\<close>.
\<close>

theorem profanity_guard_on_commands_witness:
  "containsProfanity lowerASCII (0xA0 # ascii ''/poll BadWord1'')
   \<and> startsWith (trim (0xA0 # ascii ''/poll BadWord1'')) (ascii ''/'')
   \<and> fst (handleCommand lowerASCII idleHandlers (ascii ''15551234'') (0xA0 # ascii ''/poll BadWord1'')
            (exampleContext reliable) emptyWorld)
       = Returned True
   \<and> trace (snd (handleCommand lowerASCII idleHandlers (ascii ''15551234'') (0xA0 # ascii ''/poll BadWord1'')
                   (exampleContext reliable) emptyWorld))
       = [SendText (ascii ''15551234'') PROFANITY_WARNING True]
   \<and> POLLS (snd (handleCommand lowerASCII idleHandlers (ascii ''15551234'') (0xA0 # ascii ''/poll BadWord1'')
                   (exampleContext reliable) emptyWorld))
       = Map.empty
   \<and> \<not> startsWith (trim (ascii ''hello'')) (ascii ''/'')
   \<and> fst (handleCommand lowerASCII idleHandlers (ascii ''15551234'') (ascii ''hello'') (exampleContext reliable) emptyWorld)
       = Returned False
   \<and> trace (snd (handleCommand lowerASCII idleHandlers (ascii ''15551234'') (ascii ''hello'') (exampleContext reliable)
                   emptyWorld))
       = []"
proof -
  have a: "containsProfanity lowerASCII (0xA0 # ascii ''/poll BadWord1'')"
    by code_simp
  have b: "startsWith (trim (0xA0 # ascii ''/poll BadWord1'')) (ascii ''/'')"
    by code_simp
  have c: "sendText (exampleContext reliable) = Some reliable"
    by (simp add: exampleContext_def)
  have d: "\<not> startsWith (trim (ascii ''hello'')) (ascii ''/'')"
    by code_simp
  note t = profanity_guard_on_commands[OF a b c, of idleHandlers "ascii ''15551234''" emptyWorld "ascii ''hello''"]
  have first: "handleCommand lowerASCII idleHandlers (ascii ''15551234'') (0xA0 # ascii ''/poll BadWord1'')
            (exampleContext reliable) emptyWorld
          = (Returned True, emptyWorld\<lparr>trace := [SendText (ascii ''15551234'') PROFANITY_WARNING True]\<rparr>)"
    using t[THEN conjunct1] by (simp add: reliable_def emptyWorld_def)
  have second: "handleCommand lowerASCII idleHandlers (ascii ''15551234'') (ascii ''hello'') (exampleContext reliable) emptyWorld
          = (Returned False, emptyWorld)"
    using t[THEN conjunct2] d by blast
  show ?thesis
    unfolding first second using a b d by (simp add: emptyWorld_def)
qed

text \<open>
  Claim C1 as stated fails for a text without the sigil: the message "badword1" contains
  a prohibited term, and \<open>handleCommand\<close> returns \<open>handled = false\<close> and sends no warning.
\<close>

theorem profanity_without_sigil_not_handled:
  "containsProfanity lowerASCII (ascii ''badword1'')
   \<and> fst (handleCommand lowerASCII idleHandlers (ascii ''15551234'') (ascii ''badword1'') (exampleContext reliable) emptyWorld)
       = Returned False
   \<and> trace (snd (handleCommand lowerASCII idleHandlers (ascii ''15551234'') (ascii ''badword1'') (exampleContext reliable)
                   emptyWorld)) = []"
  by code_simp

text \<open>
  The direct dispatch (lines 556 to 565). When the name of a command is a key of the
  registry and the handler, called by the router, throws, \<open>handleCommand\<close> does not throw:
  it calls the sender once more, with the fixed apology to the sender of the message (a
  failure of that call is dropped), and returns \<open>handled = true\<close>. The handler is reached
  when the context has \<open>sendText\<close> and the text has no prohibited term.
\<close>

lemma handler_exception_is_caught:
  assumes "parseCommand lower body = Some parsed" "sendText ctx = Some out" "\<not> containsProfanity lower body"
      and "HANDLERS others (cmd parsed) = Some h"
      and "h who (args parsed) (ctx\<lparr>rawCommand := body\<rparr>) (w\<lparr>trace := trace w @ [Invoked (cmd parsed)]\<rparr>)
             = (Some err, w1)"
  shows "handleCommand lower others who body ctx w =
          (Returned True,
           w1\<lparr>trace := trace w1 @ [SendText who HANDLER_ERROR_REPLY (out (trace w1) who HANDLER_ERROR_REPLY = None)]\<rparr>)"
  using assms by (simp add: handleCommand_def ctx_sendText_def deliver_def)

text \<open>
  The same with a handler of the source: \<open>/poll "Q" "A" "B"\<close> while the sender is offline.
  \<open>cmd_poll\<close> stores the poll, its reply fails to send and the exception reaches the
  router, which tries the apology (that send fails too) and returns \<open>handled = true\<close>.
\<close>

lemma poll_handler_exception_is_caught:
  "fst (handleCommand lowerASCII idleHandlers (ascii ''15551234'')
         (ascii ''/poll '' @ wrap (ascii ''Q'') @ ascii '' '' @ wrap (ascii ''A'') @ ascii '' '' @ wrap (ascii ''B''))
         (exampleContext offline) emptyWorld) = Returned True
   \<and> trace (snd (handleCommand lowerASCII idleHandlers (ascii ''15551234'')
         (ascii ''/poll '' @ wrap (ascii ''Q'') @ ascii '' '' @ wrap (ascii ''A'') @ ascii '' '' @ wrap (ascii ''B''))
         (exampleContext offline) emptyWorld))
       = [Invoked (ascii ''poll''),
          SendText (ascii ''15551234'') (pollCreatedText (ascii ''poll_0_7'') (ascii ''Q'') [ascii ''A'', ascii ''B'']) False,
          SendText (ascii ''15551234'') HANDLER_ERROR_REPLY False]"
  by code_simp

text \<open>
  Claim C9 fails on the code. A menu selection \<open>cmd:<id>\<close> resolves to a handler of the
  same registry, by the second lookup of the router (lines 568 to 578). There what the
  handler throws is caught and \<open>handled = true\<close> is returned, but the \<open>catch\<close> only logs:
  no apology is sent, unlike in the direct dispatch above. With a handler of \<open>/joke\<close> that
  throws, the text \<open>/joke\<close> gets the apology and the text \<open>/cmd:joke\<close> gets nothing. With
  the handler of the source, the text \<open>/cmd:poll\<close> while the sender is offline: \<open>cmd_poll\<close>
  is called with the words of the usage line, stores the poll, its reply fails to send,
  and no apology is tried.
\<close>

theorem menu_selection_sends_no_apology:
  "fst (handleCommand lowerASCII failingHandlers (ascii ''15551234'') (ascii ''/joke'') (exampleContext reliable) emptyWorld)
       = Returned True
   \<and> trace (snd (handleCommand lowerASCII failingHandlers (ascii ''15551234'') (ascii ''/joke'') (exampleContext reliable)
                   emptyWorld))
       = [Invoked (ascii ''joke''), SendText (ascii ''15551234'') HANDLER_ERROR_REPLY True]
   \<and> fst (handleCommand lowerASCII failingHandlers (ascii ''15551234'') (ascii ''/cmd:joke'') (exampleContext reliable)
            emptyWorld)
       = Returned True
   \<and> trace (snd (handleCommand lowerASCII failingHandlers (ascii ''15551234'') (ascii ''/cmd:joke'') (exampleContext reliable)
                   emptyWorld))
       = [Invoked (ascii ''joke'')]
   \<and> fst (handleCommand lowerASCII idleHandlers (ascii ''15551234'') (ascii ''/cmd:poll'') (exampleContext offline) emptyWorld)
       = Returned True
   \<and> trace (snd (handleCommand lowerASCII idleHandlers (ascii ''15551234'') (ascii ''/cmd:poll'') (exampleContext offline)
                   emptyWorld))
       = [Invoked (ascii ''poll''),
          SendText (ascii ''15551234'')
            (pollCreatedText (ascii ''poll_0_7'') (ascii ''Question'') [ascii ''Option1'', ascii ''Option2'']) False]"
  by code_simp

end
